theory Spec2Isabelle
  imports Complex_Main
begin

section \<open>Python values, errors and warnings\<close>

text \<open>
  The scalar values that reach the attributes of \<^verbatim>\<open>Bullseye.Graph\<close>: \<^verbatim>\<open>None\<close>, booleans,
  unbounded integers, floats (read as reals: rounding is not modelled) and strings.
  Arrays are a separate type, so an option value is never an array.
\<close>

datatype pyval = PNone | PBool bool | PInt int | PFloat real | PStr string

text \<open>Python's truth value of a scalar, as \<^verbatim>\<open>if self.keep_1d_prior:\<close> takes it.\<close>

fun truthy :: "pyval \<Rightarrow> bool" where
  "truthy PNone = False"
| "truthy (PBool b) = b"
| "truthy (PInt i) = (i \<noteq> 0)"
| "truthy (PFloat r) = (r \<noteq> 0)"
| "truthy (PStr s) = (s \<noteq> [])"

datatype error =
    AssertionError | NameError | TypeError | AttributeError
  | IndexError | ValueError | ZeroDivisionError | OverflowError | EmptyDataError
  | FileNotFoundError

text \<open>
  The two helpers of \<^verbatim>\<open>warning_handler\<close> that \<^verbatim>\<open>set_options\<close> calls. A call of
  \<^verbatim>\<open>warn_unknown_parameter(key, function = f)\<close> is recorded as \<open>Unknown_parameter key f\<close>, a call of
  \<^verbatim>\<open>warn_useless_parameter(a, b, function = f)\<close> as \<open>Useless_parameter a b f\<close>.
\<close>

datatype warning = Unknown_parameter string string | Useless_parameter string string string

section \<open>The Graph object\<close>

text \<open>A numpy array: its shape and its entries in row-major order.\<close>

datatype ndarray = NDArray (shape: "nat list") (elems: "real list")

text \<open>
  The instance attributes. The fundamental attributes and the four flags are fields; the
  option attributes, which \<^verbatim>\<open>set_options\<close> reaches by name through \<^verbatim>\<open>setattr\<close>, are the
  map \<open>self_opts\<close> from attribute name to value. \<open>self_num_of_chunks\<close> is the attribute that
  \<^verbatim>\<open>feed_with\<close> creates in streaming mode (\<open>None\<close>: not created yet).
\<close>

record graph =
  self_option_list :: "string list"
  self_opts :: "string \<rightharpoonup> pyval"
  self_graph :: "nat option"
  self_in_graph :: "nat option"
  self_d :: "int option"
  self_k :: "int option"
  self_p :: "int option"
  self_X :: "ndarray option"
  self_Y :: "ndarray option"
  self_prior_std :: "ndarray option"
  self_file :: "string option"
  self_chunksize :: pyval
  self_nb_of_chunks :: pyval
  self_num_of_chunks :: "int option"
  self_mu_0 :: "ndarray option"
  self_cov_0 :: "ndarray option"
  self_Phi :: "nat option"
  self_grad_Phi :: "nat option"
  self_hess_Phi :: "nat option"
  self_Projs :: "nat option"
  self_feed_with_is_called :: bool
  self_set_model_is_called :: bool
  self_init_with_is_called :: bool
  self_build_is_called :: bool

text \<open>The dict \<^verbatim>\<open>options\<close> of \<^verbatim>\<open>__init__\<close>, in its order.\<close>

definition options_default :: "(string \<times> pyval) list" where
  "options_default =
    [(''brutal_iteration'', PBool False),
     (''speed'', PInt 1),
     (''step_size_decrease_coef'', PFloat (1 / 2)),
     (''s'', PInt 10),
     (''quadrature_deg'', PInt 12),
     (''flatten_activations'', PBool False),
     (''local_std_trick'', PBool True),
     (''m'', PInt 0),
     (''m_prior'', PInt 0),
     (''compute_kernel'', PBool False),
     (''compute_prior_kernel'', PBool False),
     (''sparse'', PBool True),
     (''chunk_as_sum'', PBool True),
     (''keep_1d_prior'', PBool True),
     (''number_of_chunk_max'', PInt 0),
     (''natural_param_likelihood'', PBool False),
     (''natural_param_prior'', PBool False),
     (''silent'', PBool True)]"

definition Graph_init :: graph where
  "Graph_init =
    \<lparr> self_option_list = map fst options_default,
      self_opts = map_of options_default,
      self_graph = None,
      self_in_graph = None,
      self_d = None, self_k = None, self_p = None,
      self_X = None, self_Y = None, self_prior_std = None,
      self_file = None, self_chunksize = PNone, self_nb_of_chunks = PNone,
      self_num_of_chunks = None,
      self_mu_0 = None, self_cov_0 = None,
      self_Phi = None, self_grad_Phi = None, self_hess_Phi = None, self_Projs = None,
      self_feed_with_is_called = False,
      self_set_model_is_called = False,
      self_init_with_is_called = False,
      self_build_is_called = False \<rparr>"

section \<open>set_options\<close>

text \<open>
  \<^verbatim>\<open>**kwargs\<close> is a dict: an association list in call order, whose keys are distinct.
\<close>

type_synonym kwargs = "(string \<times> pyval) list"

definition set_options_name :: string where
  "set_options_name = ''Bullseye_graph.set_options()''"

text \<open>
  The loop \<^verbatim>\<open>for key in list(kwargs)\<close>: an unknown key is warned about, a known one is
  assigned. The warnings issued so far are threaded through.
\<close>

fun set_options_loop :: "graph \<Rightarrow> warning list \<Rightarrow> kwargs \<Rightarrow> graph \<times> warning list" where
  "set_options_loop g ws [] = (g, ws)"
| "set_options_loop g ws ((key, v) # kw) =
     (if key \<notin> set (self_option_list g)
      then set_options_loop g (ws @ [Unknown_parameter key set_options_name]) kw
      else set_options_loop (g\<lparr>self_opts := (self_opts g)(key \<mapsto> v)\<rparr>) ws kw)"

text \<open>
  The whole method: the warnings issued, then either the error raised or \<open>Inr ()\<close>, and the
  object as the call leaves it. Reading \<^verbatim>\<open>self.keep_1d_prior\<close> raises \<^verbatim>\<open>AttributeError\<close>
  when the attribute does not exist.
\<close>

definition set_options :: "graph \<Rightarrow> kwargs \<Rightarrow> warning list \<times> (error + unit) \<times> graph" where
  "set_options g kwargs =
     (let (g1, ws) = set_options_loop g [] kwargs in
      case self_opts g1 ''keep_1d_prior'' of
        None \<Rightarrow> (ws, Inl AttributeError, g1)
      | Some keep \<Rightarrow>
          if truthy keep then
            (let ws' = (if ''compute_prior_kernel'' \<in> set (map fst kwargs)
                        then ws @ [Useless_parameter ''computed_prior_kernel'' ''keep_1d_prior''
                                     set_options_name]
                        else ws)
             in (ws', Inr (),
                 g1\<lparr>self_opts := (self_opts g1)(''compute_prior_kernel'' \<mapsto> PBool False)\<rparr>))
          else (ws, Inr (), g1))"

text \<open>
  What every object built by \<^verbatim>\<open>__init__\<close> satisfies and \<^verbatim>\<open>set_options\<close> keeps: each listed
  option is an attribute, and the two dependent options are listed.
\<close>

definition options_present :: "graph \<Rightarrow> bool" where
  "options_present g \<longleftrightarrow>
     list_all (\<lambda>key. self_opts g key \<noteq> None) (self_option_list g) \<and>
     ''keep_1d_prior'' \<in> set (self_option_list g) \<and>
     ''compute_prior_kernel'' \<in> set (self_option_list g)"

text \<open>
  \<^verbatim>\<open>keep_1d_prior\<close> is in effect for a call when the value the call leaves in the attribute is
  true: the value the call passes, or else the one the object already has.
\<close>

definition keep_1d_prior_in_effect :: "graph \<Rightarrow> kwargs \<Rightarrow> bool" where
  "keep_1d_prior_in_effect g kwargs =
     (case map_of kwargs ''keep_1d_prior'' of
        Some v \<Rightarrow> truthy v
      | None \<Rightarrow> (case self_opts g ''keep_1d_prior'' of Some v \<Rightarrow> truthy v | None \<Rightarrow> False))"

section \<open>numpy and the file system\<close>

text \<open>
  An argument that is either a Python scalar or a numpy array (\<^verbatim>\<open>prior_std\<close>, \<^verbatim>\<open>mu_0\<close>,
  \<^verbatim>\<open>cov_0\<close>).
\<close>

datatype arg = Scalar pyval | Array ndarray

text \<open>\<^verbatim>\<open>type(v) == int\<close> and \<^verbatim>\<open>type(v) in [float, int]\<close>: a bool is neither.\<close>

fun type_is_int :: "pyval \<Rightarrow> bool" where
  "type_is_int (PInt i) = True"
| "type_is_int v = False"

fun number_of :: "pyval \<Rightarrow> real option" where
  "number_of (PInt i) = Some (of_int i)"
| "number_of (PFloat r) = Some r"
| "number_of v = None"

definition scale :: "real \<Rightarrow> ndarray \<Rightarrow> ndarray" where
  "scale c a = NDArray (shape a) (map (\<lambda>x. c * x) (elems a))"

text \<open>
  A Python integer has a float when it is below \<open>2^1024 - 2^970\<close> in absolute value; beyond,
  converting it raises \<^verbatim>\<open>OverflowError\<close>.
\<close>

definition float_overflows :: "int \<Rightarrow> bool" where
  "float_overflows i \<longleftrightarrow> 2 ^ 1024 - 2 ^ 970 \<le> \<bar>i\<bar>"

text \<open>
  \<^verbatim>\<open>v * a\<close> for a scalar \<open>v\<close> and a float array \<open>a\<close>. numpy multiplies entry by entry, so an
  integer that has no float raises \<^verbatim>\<open>OverflowError\<close> when the array has an entry. A bool
  counts as 0 or 1; \<^verbatim>\<open>None\<close> and strings cannot be multiplied with a float array.
\<close>

fun scalar_times :: "pyval \<Rightarrow> ndarray \<Rightarrow> error + ndarray" where
  "scalar_times (PInt i) a =
     (if elems a \<noteq> [] \<and> float_overflows i then Inl OverflowError
      else Inr (scale (of_int i) a))"
| "scalar_times (PFloat r) a = Inr (scale r a)"
| "scalar_times (PBool b) a = Inr (scale (if b then 1 else 0) a)"
| "scalar_times PNone a = Inl TypeError"
| "scalar_times (PStr s) a = Inl TypeError"

text \<open>
  \<^verbatim>\<open>np.eye(n)\<close>: the identity of size \<open>n\<close>; a negative size is a \<^verbatim>\<open>ValueError\<close>, \<^verbatim>\<open>None\<close> a
  \<^verbatim>\<open>TypeError\<close>.
\<close>

definition np_eye :: "int option \<Rightarrow> error + ndarray" where
  "np_eye n =
     (case n of
        None \<Rightarrow> Inl TypeError
      | Some n \<Rightarrow>
          if n < 0 then Inl ValueError
          else Inr (NDArray [nat n, nat n]
                 (concat (map (\<lambda>i. map (\<lambda>j. if i = j then 1 else 0) [0..<nat n]) [0..<nat n]))))"

text \<open>
  \<^verbatim>\<open>np.ones(n)\<close>: a vector of \<open>n\<close> ones; \<^verbatim>\<open>None\<close> is read as the empty shape and gives the
  0-dimensional array holding 1.
\<close>

definition np_ones :: "int option \<Rightarrow> error + ndarray" where
  "np_ones n =
     (case n of
        None \<Rightarrow> Inr (NDArray [] [1])
      | Some n \<Rightarrow>
          if n < 0 then Inl ValueError else Inr (NDArray [nat n] (replicate (nat n) 1)))"

text \<open>\<^verbatim>\<open>np.diag(v)\<close> for a vector \<open>v\<close>: the square matrix with \<open>v\<close> on its diagonal.\<close>

definition np_diag :: "ndarray \<Rightarrow> ndarray" where
  "np_diag v =
     (let n = length (elems v) in
      NDArray [n, n]
        (concat (map (\<lambda>i. map (\<lambda>j. if i = j then elems v ! i else 0) [0..<n]) [0..<n])))"

text \<open>
  A csv file on disk: its lines, each a list of numeric cells. pandas takes the first line
  as the header, so the data rows are the remaining lines, and the number of columns is the
  width of the first line. Lines are taken to have the same width.
\<close>

type_synonym csv_file = "real list list"

text \<open>
  What the code uses and this module does not define: the files on disk, the clock read
  by \<^verbatim>\<open>time.time()\<close> (the value of its n-th call), and the helpers imported from
  \<^verbatim>\<open>utils\<close>, \<^verbatim>\<open>predefined_functions\<close> and \<^verbatim>\<open>graph\<close>, which are parameters.
\<close>

record env =
  fs :: "string \<rightharpoonup> csv_file"
  clock :: "nat \<Rightarrow> real"
  expand_dims :: "ndarray \<Rightarrow> nat \<Rightarrow> ndarray"
  to_one_hot :: "real list \<Rightarrow> ndarray"
  get_predefined_functions :: "string \<Rightarrow> string \<Rightarrow> string \<Rightarrow> error + (nat \<times> nat \<times> nat \<times> nat)"
  construct_bullseye_graph :: "graph \<Rightarrow> error + (nat \<times> nat)"

text \<open>
  \<^verbatim>\<open>int(n / c)\<close> for integers: true division, then truncation towards zero; \<open>c = 0\<close> is
  handled by the caller.
\<close>

definition int_truediv :: "int \<Rightarrow> int \<Rightarrow> int" where
  "int_truediv n c = sgn n * sgn c * (\<bar>n\<bar> div \<bar>c\<bar>)"

section \<open>feed_with\<close>

record feed_with_args =
  fw_X :: "ndarray option"
  fw_Y :: "ndarray option"
  fw_d :: "int option"
  fw_k :: "int option"
  fw_prior_std :: arg
  fw_file :: "string option"
  fw_chunksize :: pyval

text \<open>The defaults of the signature.\<close>

definition feed_with_defaults :: feed_with_args where
  "feed_with_defaults =
     \<lparr> fw_X = None, fw_Y = None, fw_d = None, fw_k = None, fw_prior_std = Scalar (PInt 1),
       fw_file = None, fw_chunksize = PNone \<rparr>"

text \<open>
  Method 1 (lines 153 to 168). \<^verbatim>\<open>Y.shape[0]\<close> and \<^verbatim>\<open>X.shape[0]\<close> raise \<^verbatim>\<open>IndexError\<close> on a
  0-dimensional array, before the assertions on the number of dimensions, and so does
  \<^verbatim>\<open>shape[-1]\<close> should \<^verbatim>\<open>expand_dims\<close> return one.
\<close>

definition feed_with_arrays :: "env \<Rightarrow> graph \<Rightarrow> feed_with_args \<Rightarrow> (error + unit) \<times> graph" where
  "feed_with_arrays ev g a =
     (case fw_X a of
        None \<Rightarrow> (Inl AssertionError, g)
      | Some x \<Rightarrow>
         (case fw_Y a of
            None \<Rightarrow> (Inl AssertionError, g)
          | Some y \<Rightarrow>
              if shape y = [] \<or> shape x = [] then (Inl IndexError, g)
              else if hd (shape y) \<noteq> hd (shape x) then (Inl AssertionError, g)
              else if length (shape x) \<notin> {1, 2} then (Inl AssertionError, g)
              else if length (shape y) \<notin> {1, 2} then (Inl AssertionError, g)
              else
                (let x' = (if length (shape x) = 1 then expand_dims ev x 0 else x);
                     y' = (if length (shape y) = 1 then expand_dims ev y 0 else y);
                     g1 = g\<lparr>self_X := Some x', self_Y := Some y'\<rparr>
                 in if shape x' = [] then (Inl IndexError, g1)
                    else if shape y' = []
                    then (Inl IndexError, g1\<lparr>self_d := Some (int (last (shape x')))\<rparr>)
                    else (Inr (),
                          g1\<lparr>self_d := Some (int (last (shape x'))),
                             self_k := Some (int (last (shape y')))\<rparr>))))"

text \<open>
  Method 2 (lines 170 to 176). The third assertion, \<^verbatim>\<open>assert type(d), type(k) == [int,int]\<close>,
  tests the truth of \<^verbatim>\<open>type(d)\<close> and never fails.
\<close>

definition feed_with_sizes :: "graph \<Rightarrow> feed_with_args \<Rightarrow> (error + unit) \<times> graph" where
  "feed_with_sizes g a =
     (case fw_d a of
        None \<Rightarrow> (Inl AssertionError, g)
      | Some d \<Rightarrow>
         (case fw_k a of
            None \<Rightarrow> (Inl AssertionError, g)
          | Some k \<Rightarrow> (Inr (), g\<lparr>self_d := Some d, self_k := Some k\<rparr>)))"

text \<open>
  Method 3 (lines 178 to 199), for the file \<open>path\<close>. \<open>k\<close> is an integer or \<^verbatim>\<open>None\<close>, so
  \<^verbatim>\<open>type(k) == int\<close> holds once \<open>k\<close> is not \<^verbatim>\<open>None\<close>. The reader with \<^verbatim>\<open>chunksize = 1\<close> yields
  the first data row, whose shape is \<open>[1, width]\<close>; when the file has a header and no data row
  it yields one empty chunk, of shape \<open>[0, width]\<close>. \<open>n\<close> counts all lines.
\<close>

definition feed_with_file :: "env \<Rightarrow> graph \<Rightarrow> string \<Rightarrow> feed_with_args \<Rightarrow> (error + unit) \<times> graph" where
  "feed_with_file ev g path a =
     (case fs ev path of
        None \<Rightarrow> (Inl AssertionError, g)
      | Some lines \<Rightarrow>
          if fw_chunksize a \<noteq> PNone \<and> \<not> type_is_int (fw_chunksize a) then (Inl AssertionError, g)
          else
           (case fw_k a of
              None \<Rightarrow> (Inl AssertionError, g)
            | Some k \<Rightarrow>
               (case lines of
                  [] \<Rightarrow> (Inl EmptyDataError, g)
                | header # rows \<Rightarrow>
                   (let data = [int (min 1 (length rows)), int (length header)];
                        n = int (length lines);
                        g1 = g\<lparr>self_k := Some k,
                               self_d := Some (last data - 1),
                               self_file := Some path,
                               self_chunksize := fw_chunksize a\<rparr>
                    in case fw_chunksize a of
                         PInt c \<Rightarrow>
                           if c = 0 then (Inl ZeroDivisionError, g1)
                           else (Inr (), g1\<lparr>self_num_of_chunks := Some (int_truediv n c)\<rparr>)
                       | other \<Rightarrow> (Inl TypeError, g1)))))"

text \<open>
  The end of the method (lines 200 to 215): \<open>p\<close>, the prior standard deviation as a matrix,
  and the flag.
\<close>

definition feed_with_prior :: "graph \<Rightarrow> arg \<Rightarrow> (error + unit) \<times> graph" where
  "feed_with_prior g prior_std =
     (case (self_d g, self_k g) of
        (Some d, Some k) \<Rightarrow>
          (let g1 = g\<lparr>self_p := Some (d * k)\<rparr>;
               done = (\<lambda>m. (Inr (), g1\<lparr>self_prior_std := Some m, self_feed_with_is_called := True\<rparr>))
           in case prior_std of
                Scalar (PInt i) \<Rightarrow>
                  (case np_eye (self_p g1) of
                     Inl e \<Rightarrow> (Inl e, g1)
                   | Inr m \<Rightarrow>
                       (case scalar_times (PInt i) m of
                          Inl e \<Rightarrow> (Inl e, g1)
                        | Inr std \<Rightarrow> done std))
              | Scalar other \<Rightarrow> (Inl AttributeError, g1)
              | Array m \<Rightarrow>
                  if length (shape m) = 1 then
                    (if map int (shape m) = [d * k] then done (np_diag m)
                     else (Inl AssertionError, g1))
                  else
                    (if map int (shape m) = [d * k, d * k] then done m
                     else (Inl AssertionError, g1)))
      | other \<Rightarrow> (Inl TypeError, g))"

definition feed_with :: "env \<Rightarrow> graph \<Rightarrow> feed_with_args \<Rightarrow> (error + unit) \<times> graph" where
  "feed_with ev g a =
     (let fed =
        (if fw_X a \<noteq> None \<or> fw_Y a \<noteq> None then feed_with_arrays ev g a
         else case fw_file a of
                None \<Rightarrow> feed_with_sizes g a
              | Some path \<Rightarrow> feed_with_file ev g path a)
      in case fed of
           (Inl e, g1) \<Rightarrow> (Inl e, g1)
         | (Inr u, g1) \<Rightarrow> feed_with_prior g1 (fw_prior_std a))"

section \<open>set_model, init_with and build\<close>

record set_model_args =
  sm_model :: "string option"
  sm_phi_option :: string
  sm_proj_option :: string
  sm_Phi :: "nat option"
  sm_grad_Phi :: "nat option"
  sm_hess_Phi :: "nat option"
  sm_Projs :: "nat option"

definition set_model :: "env \<Rightarrow> graph \<Rightarrow> set_model_args \<Rightarrow> (error + unit) \<times> graph" where
  "set_model ev g a =
     (case sm_model a of
        Some model \<Rightarrow>
          (case get_predefined_functions ev model (sm_phi_option a) (sm_proj_option a) of
             Inl e \<Rightarrow> (Inl e, g)
           | Inr (phi, grad_phi, hess_phi, projs) \<Rightarrow>
               (Inr (), g\<lparr>self_Phi := Some phi, self_grad_Phi := Some grad_phi,
                          self_hess_Phi := Some hess_phi, self_Projs := Some projs,
                          self_set_model_is_called := True\<rparr>))
      | None \<Rightarrow>
          if sm_Phi a = None then (Inl AssertionError, g)
          else (Inr (), g\<lparr>self_Phi := sm_Phi a, self_grad_Phi := sm_grad_Phi a,
                          self_hess_Phi := sm_hess_Phi a, self_Projs := sm_Projs a,
                          self_set_model_is_called := True\<rparr>))"

text \<open>
  The handling of \<^verbatim>\<open>mu_0\<close> (lines 271 to 276). In the branch of a 1-dimensional array the
  assertion compares with \<^verbatim>\<open>[p]\<close>, and the module binds no name \<^verbatim>\<open>p\<close>: evaluating it raises
  \<^verbatim>\<open>NameError\<close>. An array of any other number of dimensions matches no branch and is not
  stored.
\<close>

definition init_with_mu :: "graph \<Rightarrow> arg \<Rightarrow> (error + unit) \<times> graph" where
  "init_with_mu g mu_0 =
     (case mu_0 of
        Scalar v \<Rightarrow>
          (case number_of v of
             Some c \<Rightarrow>
               (case np_ones (self_p g) of
                  Inl e \<Rightarrow> (Inl e, g)
                | Inr ones \<Rightarrow>
                    (case scalar_times v ones of
                       Inl e \<Rightarrow> (Inl e, g)
                     | Inr mu \<Rightarrow> (Inr (), g\<lparr>self_mu_0 := Some mu\<rparr>)))
           | None \<Rightarrow> (Inl AttributeError, g))
      | Array m \<Rightarrow>
          if length (shape m) = 1 then (Inl NameError, g)
          else (Inr (), g))"

text \<open>
  The handling of \<^verbatim>\<open>cov_0\<close> (lines 278 to 286); both assertions read the shape of \<^verbatim>\<open>mu_0\<close>.
\<close>

definition init_with_cov :: "graph \<Rightarrow> arg \<Rightarrow> arg \<Rightarrow> (error + unit) \<times> graph" where
  "init_with_cov g mu_0 cov_0 =
     (case cov_0 of
        Scalar v \<Rightarrow>
          (case number_of v of
             Some c \<Rightarrow>
               (case np_eye (self_p g) of
                  Inl e \<Rightarrow> (Inl e, g)
                | Inr eye \<Rightarrow>
                    (case scalar_times v eye of
                       Inl e \<Rightarrow> (Inl e, g)
                     | Inr cov \<Rightarrow> (Inr (), g\<lparr>self_cov_0 := Some cov\<rparr>)))
           | None \<Rightarrow> (Inl AttributeError, g))
      | Array c \<Rightarrow>
          (case mu_0 of
             Scalar v \<Rightarrow> (Inl AttributeError, g)
           | Array m \<Rightarrow>
               if length (shape c) = 1 then
                 (if map (Some \<circ> int) (shape m) = [self_p g]
                  then (Inr (), g\<lparr>self_cov_0 := Some (np_diag c)\<rparr>)
                  else (Inl AssertionError, g))
               else
                 (if map (Some \<circ> int) (shape m) = [self_p g, self_p g]
                  then (Inr (), g\<lparr>self_cov_0 := Some c\<rparr>)
                  else (Inl AssertionError, g))))"

definition init_with :: "graph \<Rightarrow> arg \<Rightarrow> arg \<Rightarrow> (error + unit) \<times> graph" where
  "init_with g mu_0 cov_0 =
     (case init_with_mu g mu_0 of
        (Inl e, g1) \<Rightarrow> (Inl e, g1)
      | (Inr u, g1) \<Rightarrow>
          (case init_with_cov g1 mu_0 cov_0 of
             (Inl e, g2) \<Rightarrow> (Inl e, g2)
           | (Inr u, g2) \<Rightarrow> (Inr (), g2\<lparr>self_init_with_is_called := True\<rparr>)))"

definition build :: "env \<Rightarrow> graph \<Rightarrow> (error + unit) \<times> graph" where
  "build ev g =
     (if \<not> (self_feed_with_is_called g \<and> self_set_model_is_called g \<and> self_init_with_is_called g)
      then (Inl AssertionError, g)
      else case construct_bullseye_graph ev g of
             Inl e \<Rightarrow> (Inl e, g)
           | Inr (gr, in_gr) \<Rightarrow>
               (Inr (), g\<lparr>self_graph := Some gr, self_in_graph := Some in_gr,
                          self_build_is_called := True\<rparr>))"

section \<open>The session and its operations\<close>

text \<open>
  A feed dict: placeholder names with the arrays fed to them.
\<close>

type_synonym feed = "(string \<times> ndarray) list"

text \<open>
  The operations of the dict \<^verbatim>\<open>self.in_graph\<close> that \<^verbatim>\<open>run\<close> and
  \<^verbatim>\<open>set_globals_from_chunks\<close> hand to \<^verbatim>\<open>sess.run\<close>. \<open>Op_update_globals None\<close> is
  \<^verbatim>\<open>ops["update_globals"]\<close>, \<open>Op_update_globals (Some i)\<close> is \<^verbatim>\<open>ops["update_globals"][i]\<close>, and
  \<open>Op_mu_cov\<close> is the pair \<^verbatim>\<open>[ops["mu"], ops["cov"]]\<close>.
\<close>

datatype op_name =
  Op_init | Op_iteration | Op_mu_cov | Op_init_globals | Op_update_globals "nat option"

text \<open>
  What a run does besides computing its result, in order: the operations the session runs
  with their feed, the calls to the profiler and the timeline, and the lines printed.
\<close>

datatype 'u event =
    Sess_run op_name feed
  | Profiler_prepare_next_step
  | Profiler_profile_operations
  | Timeline_update
  | Timeline_save string
  | Print_iteration 'u real
  | Print_one_chunk_done

text \<open>
  The graph is built by \<^verbatim>\<open>construct_bullseye_graph\<close>, which this module imports. What its
  operations compute is a parameter: \<open>'s\<close> is the state of the session's variables, \<open>'u\<close> the
  type of the status that the iteration returns with the ELBO. \<open>sess_new\<close> is the state of a
  session that has just been opened.
\<close>

record ('s, 'u) ops =
  sess_new :: 's
  op_init :: "'s \<Rightarrow> error + 's"
  op_iteration :: "feed \<Rightarrow> 's \<Rightarrow> error + ('u \<times> real) \<times> 's"
  op_mu_cov :: "'s \<Rightarrow> error + ndarray \<times> ndarray"
  op_init_globals :: "'s \<Rightarrow> error + 's"
  op_update_globals :: "nat option \<Rightarrow> feed \<Rightarrow> 's \<Rightarrow> error + 's"

section \<open>set_globals_from_chunks\<close>

text \<open>Reading an option attribute, such as \<^verbatim>\<open>self.chunk_as_sum\<close>.\<close>

definition getattr :: "graph \<Rightarrow> string \<Rightarrow> error + pyval" where
  "getattr g name = (case self_opts g name of None \<Rightarrow> Inl AttributeError | Some v \<Rightarrow> Inr v)"

text \<open>
  The chunks that a pandas reader with chunk size \<open>c\<close> yields from the data rows: \<open>c\<close> rows
  at a time, the last chunk holding what is left.
\<close>

function chunk_rows :: "nat \<Rightarrow> 'a list \<Rightarrow> 'a list list" where
  "chunk_rows c rows =
     (if c = 0 \<or> rows = [] then [] else take c rows # chunk_rows c (drop c rows))"
  by pat_completeness auto
termination
  by (relation "measure (\<lambda>(c, rows). length rows)") auto

declare chunk_rows.simps [simp del]

text \<open>
  \<^verbatim>\<open>pd.read_table(self.file, sep = ",", chunksize = self.chunksize)\<close>. With an integer chunk
  size of at least 1 the result iterates over chunks of data rows, and over one empty chunk
  when there is no data row; it is kept with the number of columns of the table, the width
  of the header. With \<^verbatim>\<open>None\<close> the result is the whole table, not a reader of chunks.
\<close>

datatype reader = Chunks nat "real list list list" | Frame "real list list"

definition read_table :: "env \<Rightarrow> string option \<Rightarrow> pyval \<Rightarrow> error + reader" where
  "read_table ev file chunksize =
     (case file of
        None \<Rightarrow> Inl ValueError
      | Some path \<Rightarrow>
         (case fs ev path of
            None \<Rightarrow> Inl FileNotFoundError
          | Some lines \<Rightarrow>
             (case lines of
                [] \<Rightarrow> Inl EmptyDataError
              | header # rows \<Rightarrow>
                 (case chunksize of
                    PNone \<Rightarrow> Inr (Frame rows)
                  | PInt c \<Rightarrow>
                      if c < 1 then Inl ValueError
                      else Inr (Chunks (length header)
                                  (if rows = [] then [[]] else chunk_rows (nat c) rows))
                  | other \<Rightarrow> Inl ValueError))))"

text \<open>
  Lines 468 to 471: \<^verbatim>\<open>data = np.asarray(chunk)\<close>, \<^verbatim>\<open>X = data[:,1:]/253.\<close> and
  \<^verbatim>\<open>Y = to_one_hot(data[:,0])\<close>. The chunk is the list of its rows, \<open>ncols\<close> the number of
  columns of the table, so \<^verbatim>\<open>data\<close> has the shape \<open>[length data, ncols]\<close> and \<^verbatim>\<open>X\<close> the shape
  \<open>[length data, ncols - 1]\<close>, also when the chunk has no row. \<^verbatim>\<open>data[:,0]\<close> raises
  \<^verbatim>\<open>IndexError\<close> when there is no column. \<^verbatim>\<open>to_one_hot\<close> is the helper of \<^verbatim>\<open>utils\<close>, called
  with the label column alone; the array it returns is fed as it is.
\<close>

definition decode_chunk :: "env \<Rightarrow> nat \<Rightarrow> real list list \<Rightarrow> error + ndarray \<times> ndarray" where
  "decode_chunk ev ncols data =
     (if ncols = 0 \<or> list_ex (\<lambda>row. row = []) data then Inl IndexError
      else Inr (NDArray [length data, ncols - 1]
                  (concat (map (\<lambda>row. map (\<lambda>v. v / 253) (tl row)) data)),
                to_one_hot ev (map hd data)))"

definition chunk_feed :: "ndarray \<Rightarrow> ndarray \<Rightarrow> feed" where
  "chunk_feed X Y = [(''X:0'', X), (''Y:0'', Y)]"

text \<open>
  Line 498: \<^verbatim>\<open>self.number_of_chunk_max != 0 and i >= self.number_of_chunk_max\<close>, for the
  index \<open>i\<close> of the chunk that has just been processed. Comparing an integer with \<^verbatim>\<open>None\<close>
  or with a string is a \<^verbatim>\<open>TypeError\<close>.
\<close>

fun chunk_max_reached :: "nat \<Rightarrow> pyval \<Rightarrow> error + bool" where
  "chunk_max_reached i (PInt n) = Inr (n \<noteq> 0 \<and> n \<le> int i)"
| "chunk_max_reached i (PBool b) = Inr (b \<and> 1 \<le> i)"
| "chunk_max_reached i (PFloat r) = Inr (r \<noteq> 0 \<and> r \<le> real i)"
| "chunk_max_reached i PNone = Inl TypeError"
| "chunk_max_reached i (PStr s) = Inl TypeError"

text \<open>
  The loop \<^verbatim>\<open>for (i,chunk) in enumerate(reader)\<close> of lines 466 to 499, from index \<open>i\<close> on,
  over a table of \<open>ncols\<close> columns.
  \<open>timeline\<close> says that \<^verbatim>\<open>runs_timeline\<close> is not \<^verbatim>\<open>None\<close>, \<open>profiler\<close> that \<^verbatim>\<open>profiler\<close> is
  not \<^verbatim>\<open>None\<close>. The state is that of the session, with the events so far.
\<close>

fun stream_chunks ::
  "env \<Rightarrow> ('s, 'u) ops \<Rightarrow> graph \<Rightarrow> bool \<Rightarrow> bool \<Rightarrow> nat \<Rightarrow> nat \<Rightarrow> real list list list \<Rightarrow>
   's \<times> 'u event list \<Rightarrow> error + 's \<times> 'u event list" where
  "stream_chunks ev ops g timeline profiler ncols i [] w = Inr w"
| "stream_chunks ev ops g timeline profiler ncols i (chunk # rest) (s, out) =
     (case decode_chunk ev ncols chunk of
        Inl e \<Rightarrow> Inl e
      | Inr (X, Y) \<Rightarrow>
         (let feed_dict = chunk_feed X Y;
              out1 = out @ (if profiler then [Profiler_prepare_next_step] else [])
          in case getattr g ''chunk_as_sum'' of
               Inl e \<Rightarrow> Inl e
             | Inr chunk_as_sum \<Rightarrow>
                (let which = (if truthy chunk_as_sum then None else Some i)
                 in case op_update_globals ops which feed_dict s of
                      Inl e \<Rightarrow> Inl e
                    | Inr s1 \<Rightarrow>
                       (let out2 = out1 @ [Sess_run (Op_update_globals which) feed_dict]
                                   @ (if timeline then [Timeline_update] else [])
                                   @ (if profiler then [Profiler_profile_operations] else [])
                        in case getattr g ''silent'' of
                             Inl e \<Rightarrow> Inl e
                           | Inr silent \<Rightarrow>
                              (let out3 = out2 @ (if \<not> truthy silent then [Print_one_chunk_done]
                                                  else [])
                               in case getattr g ''number_of_chunk_max'' of
                                    Inl e \<Rightarrow> Inl e
                                  | Inr number_of_chunk_max \<Rightarrow>
                                     (case chunk_max_reached i number_of_chunk_max of
                                        Inl e \<Rightarrow> Inl e
                                      | Inr stop \<Rightarrow>
                                          if stop then Inr (s1, out3)
                                          else stream_chunks ev ops g timeline profiler ncols
                                                 (Suc i) rest (s1, out3)))))))"

text \<open>
  The method. When the reader is the whole table (no chunk size), the loop runs over the
  column labels, and \<^verbatim>\<open>data[:,1:]\<close> on the 0-dimensional array of a label raises
  \<^verbatim>\<open>IndexError\<close>.
\<close>

definition set_globals_from_chunks ::
  "env \<Rightarrow> ('s, 'u) ops \<Rightarrow> graph \<Rightarrow> bool \<Rightarrow> bool \<Rightarrow> 's \<times> 'u event list \<Rightarrow>
   error + 's \<times> 'u event list" where
  "set_globals_from_chunks ev ops g timeline profiler w =
     (case read_table ev (self_file g) (self_chunksize g) of
        Inl e \<Rightarrow> Inl e
      | Inr reader \<Rightarrow>
         (case getattr g ''chunk_as_sum'' of
            Inl e \<Rightarrow> Inl e
          | Inr chunk_as_sum \<Rightarrow>
             (case (if truthy chunk_as_sum
                    then (case op_init_globals ops (fst w) of
                            Inl e \<Rightarrow> Inl e
                          | Inr s1 \<Rightarrow> Inr (s1, snd w @ [Sess_run Op_init_globals []]))
                    else Inr w) of
                Inl e \<Rightarrow> Inl e
              | Inr w1 \<Rightarrow>
                 (case reader of
                    Chunks ncols chunks \<Rightarrow>
                      stream_chunks ev ops g timeline profiler ncols 0 chunks w1
                  | Frame table \<Rightarrow> Inl IndexError))))"

section \<open>run\<close>

record run_args =
  ra_n_iter :: int
  ra_X :: "ndarray option"
  ra_Y :: "ndarray option"
  ra_keep_track :: bool
  ra_timeline_path :: "string option"
  ra_profiler_dir :: "string option"

text \<open>
  The value under \<^verbatim>\<open>"mus"\<close> and under \<^verbatim>\<open>"covs"\<close>: the list of snapshots when
  \<^verbatim>\<open>keep_track\<close> is set, the last value alone otherwise.
\<close>

datatype snapshots = Trajectory "ndarray list" | Final ndarray

text \<open>The returned dict, with its keys \<^verbatim>\<open>mus\<close>, \<^verbatim>\<open>covs\<close>, \<^verbatim>\<open>elbos\<close>, \<^verbatim>\<open>times\<close>, \<^verbatim>\<open>status\<close>.\<close>

record 'u run_result =
  r_mus :: snapshots
  r_covs :: snapshots
  r_elbos :: "real list"
  r_times :: "real list"
  r_status :: "'u list"

text \<open>The local variables of \<^verbatim>\<open>run\<close> that the loop over the epochs updates.\<close>

record ('s, 'u) run_state =
  rs_sess :: 's
  rs_out :: "'u event list"
  rs_mus :: "ndarray list"
  rs_covs :: "ndarray list"
  rs_elbos :: "real list"
  rs_times :: "real list"
  rs_status :: "'u list"

text \<open>
  Lines 382 to 405: the feed dict of the epoch and, when a file is streamed, the pass over
  its chunks.
\<close>

definition epoch_data ::
  "env \<Rightarrow> ('s, 'u) ops \<Rightarrow> graph \<Rightarrow> run_args \<Rightarrow> 's \<times> 'u event list \<Rightarrow>
   error + feed \<times> 's \<times> 'u event list" where
  "epoch_data ev ops g a w =
     (case self_file g of
        None \<Rightarrow>
         (case (ra_X a, ra_Y a) of
            (Some x, Some y) \<Rightarrow> Inr ([(''X:0'', x), (''Y:0'', y)], w)
          | other \<Rightarrow>
              if ra_X a = None \<and> self_X g = None then Inl AssertionError
              else if ra_Y a = None \<and> self_Y g = None then Inl AssertionError
              else Inr ([], w))
      | Some file \<Rightarrow>
         (case set_globals_from_chunks ev ops g (ra_timeline_path a \<noteq> None)
                 (ra_profiler_dir a \<noteq> None) w of
            Inl e \<Rightarrow> Inl e
          | Inr w1 \<Rightarrow> Inr ([], w1)))"

text \<open>
  One pass of the loop \<^verbatim>\<open>for epoch in range(n_iter)\<close> (lines 380 to 429). \<^verbatim>\<open>time.time()\<close> is
  called twice in each epoch. The ELBO that the iteration returns is printed; only the
  status and the elapsed time are appended to the lists.
\<close>

definition run_epoch ::
  "env \<Rightarrow> ('s, 'u) ops \<Rightarrow> graph \<Rightarrow> run_args \<Rightarrow> nat \<Rightarrow> ('s, 'u) run_state \<Rightarrow>
   error + ('s, 'u) run_state" where
  "run_epoch ev ops g a epoch st =
     (let start_time = clock ev (2 * epoch) in
      case epoch_data ev ops g a (rs_sess st, rs_out st) of
        Inl e \<Rightarrow> Inl e
      | Inr (d_computed, s1, out1) \<Rightarrow>
         (let out2 = out1 @ (if ra_profiler_dir a \<noteq> None then [Profiler_prepare_next_step] else [])
          in case op_iteration ops d_computed s1 of
               Inl e \<Rightarrow> Inl e
             | Inr ((statu, elbo), s2) \<Rightarrow>
                (let out3 = out2 @ [Sess_run Op_iteration d_computed]
                            @ (if ra_timeline_path a \<noteq> None then [Timeline_update] else [])
                            @ (if ra_profiler_dir a \<noteq> None then [Profiler_profile_operations]
                               else [])
                 in case (if ra_keep_track a
                          then (case op_mu_cov ops s2 of
                                  Inl e \<Rightarrow> Inl e
                                | Inr (mu, cov) \<Rightarrow>
                                    Inr (rs_mus st @ [mu], rs_covs st @ [cov],
                                         out3 @ [Sess_run Op_mu_cov []]))
                          else Inr (rs_mus st, rs_covs st, out3)) of
                      Inl e \<Rightarrow> Inl e
                    | Inr (mus, covs, out4) \<Rightarrow>
                        Inr (st\<lparr>rs_sess := s2,
                                rs_out := out4 @ [Print_iteration statu elbo],
                                rs_mus := mus,
                                rs_covs := covs,
                                rs_status := rs_status st @ [statu],
                                rs_times := rs_times st
                                            @ [clock ev (2 * epoch + 1) - start_time]\<rparr>))))"

text \<open>The epochs \<open>epoch\<close>, \<open>epoch + 1\<close>, ..., \<open>epoch + n - 1\<close>.\<close>

fun run_epochs ::
  "env \<Rightarrow> ('s, 'u) ops \<Rightarrow> graph \<Rightarrow> run_args \<Rightarrow> nat \<Rightarrow> nat \<Rightarrow> ('s, 'u) run_state \<Rightarrow>
   error + ('s, 'u) run_state" where
  "run_epochs ev ops g a epoch 0 st = Inr st"
| "run_epochs ev ops g a epoch (Suc n) st =
     (case run_epoch ev ops g a epoch st of
        Inl e \<Rightarrow> Inl e
      | Inr st1 \<Rightarrow> run_epochs ev ops g a (Suc epoch) n st1)"

text \<open>
  The method: the returned dict and the events of the run, or the error raised. \<^verbatim>\<open>run\<close>
  assigns no attribute of the object. \<^verbatim>\<open>range(n_iter)\<close> is empty for a negative \<open>n_iter\<close>.
\<close>

definition run ::
  "env \<Rightarrow> ('s, 'u) ops \<Rightarrow> graph \<Rightarrow> run_args \<Rightarrow> error + 'u run_result \<times> 'u event list" where
  "run ev ops g a =
     (if \<not> self_build_is_called g then Inl AssertionError
      else
        case op_init ops (sess_new ops) of
          Inl e \<Rightarrow> Inl e
        | Inr s0 \<Rightarrow>
           (case run_epochs ev ops g a 0 (nat (ra_n_iter a))
                   \<lparr>rs_sess = s0, rs_out = [Sess_run Op_init []], rs_mus = [], rs_covs = [],
                    rs_elbos = [], rs_times = [], rs_status = []\<rparr> of
              Inl e \<Rightarrow> Inl e
            | Inr st \<Rightarrow>
               (case (if \<not> ra_keep_track a
                      then (case op_mu_cov ops (rs_sess st) of
                              Inl e \<Rightarrow> Inl e
                            | Inr (mu, cov) \<Rightarrow>
                                Inr (Final mu, Final cov, rs_out st @ [Sess_run Op_mu_cov []]))
                      else Inr (Trajectory (rs_mus st), Trajectory (rs_covs st), rs_out st)) of
                  Inl e \<Rightarrow> Inl e
                | Inr (mus, covs, out) \<Rightarrow>
                    Inr (\<lparr>r_mus = mus, r_covs = covs, r_elbos = rs_elbos st,
                          r_times = rs_times st, r_status = rs_status st\<rparr>,
                         out @ (case ra_timeline_path a of
                                  None \<Rightarrow> []
                                | Some path \<Rightarrow> [Timeline_save path])))))"

section \<open>Sequences of method calls\<close>

text \<open>
  A call of one of the set-up methods, and the object it leaves, whether it returns or
  raises. \<^verbatim>\<open>run\<close> assigns no attribute, so it does not appear.
\<close>

datatype call =
    Feed_with feed_with_args
  | Set_model set_model_args
  | Init_with arg arg
  | Set_options kwargs
  | Build

fun do_call :: "env \<Rightarrow> graph \<Rightarrow> call \<Rightarrow> graph" where
  "do_call ev g (Feed_with a) = snd (feed_with ev g a)"
| "do_call ev g (Set_model a) = snd (set_model ev g a)"
| "do_call ev g (Init_with mu_0 cov_0) = snd (init_with g mu_0 cov_0)"
| "do_call ev g (Set_options kwargs) = snd (snd (set_options g kwargs))"
| "do_call ev g Build = snd (build ev g)"

fun calls :: "env \<Rightarrow> graph \<Rightarrow> call list \<Rightarrow> graph" where
  "calls ev g [] = g"
| "calls ev g (c # cs) = calls ev (do_call ev g c) cs"

fun is_Feed_with :: "call \<Rightarrow> bool" where
  "is_Feed_with (Feed_with a) = True"
| "is_Feed_with c = False"

fun is_Set_model :: "call \<Rightarrow> bool" where
  "is_Set_model (Set_model a) = True"
| "is_Set_model c = False"

fun is_Init_with :: "call \<Rightarrow> bool" where
  "is_Init_with (Init_with mu_0 cov_0) = True"
| "is_Init_with c = False"

fun is_Build :: "call \<Rightarrow> bool" where
  "is_Build Build = True"
| "is_Build c = False"

section \<open>Reading the events of a run\<close>

text \<open>The number of chunks on which the update operation was run.\<close>

fun is_update :: "'u event \<Rightarrow> bool" where
  "is_update (Sess_run (Op_update_globals which) feed_dict) = True"
| "is_update e = False"

definition chunks_processed :: "'u event list \<Rightarrow> nat" where
  "chunks_processed out = length (filter is_update out)"

text \<open>The status and ELBO of each iteration, as printed at line 426.\<close>

fun printed :: "'u event list \<Rightarrow> ('u \<times> real) list" where
  "printed [] = []"
| "printed (Print_iteration statu elbo # out) = (statu, elbo) # printed out"
| "printed (e # out) = printed out"

section \<open>The operations of the graph, from the specification\<close>

text \<open>
  Modelled from the spec: the status that the iteration operation of \<^verbatim>\<open>graph.py\<close> (absent
  from the sources) returns. Of the states of the step-size controller (section 4.4), an
  iteration ends in Accepted or in Exhausted.
\<close>

datatype step_status = Accepted | Exhausted

text \<open>
  Modelled from the spec: the variables of the session built by \<^verbatim>\<open>graph.py\<close> (absent). The
  posterior state (section 3), the current speed and the ELBO of the last accepted
  iteration, if any (section 4.4), the global statistics as a running sum and as one record
  for each chunk index (section 4.2).
\<close>

record ('p, 'st) session =
  posterior :: 'p
  speed :: real
  prev_elbo :: "real option"
  global_stats :: 'st
  chunk_stats :: "'st list"

text \<open>
  Modelled from the spec: the collaborators that the specification leaves opaque (sections
  1 and 4.3), as parameters. The initial posterior; the zero point of the statistics and
  their sum; the local statistics of a chunk under a posterior; the update rule, which
  from statistics, posterior and speed proposes a candidate with its ELBO; the check that a
  candidate's covariance is symmetric positive semi-definite; the mean and covariance of a
  posterior.
\<close>

record ('p, 'st) model =
  posterior_0 :: 'p
  zero_stats :: 'st
  add_stats :: "'st \<Rightarrow> 'st \<Rightarrow> 'st"
  local_stats :: "'p \<Rightarrow> feed \<Rightarrow> 'st"
  propose :: "'st \<Rightarrow> 'p \<Rightarrow> real \<Rightarrow> 'p \<times> real"
  is_psd :: "'p \<Rightarrow> bool"
  mean_cov :: "'p \<Rightarrow> ndarray \<times> ndarray"

text \<open>
  Modelled from the spec: the option values that \<^verbatim>\<open>graph.py\<close> (absent) builds into the
  graph (section 6), with the two choices that section 4.4 leaves to the implementation:
  whether an improvement must be strict, and the bound on the retries. \<open>co_streaming\<close> says
  that the data come from a file, \<open>co_nb_of_chunks\<close> is the number of per-chunk records.
\<close>

record controller_options =
  co_brutal_iteration :: bool
  co_speed :: real
  co_step_size_decrease_coef :: real
  co_strict :: bool
  co_max_retries :: nat
  co_chunk_as_sum :: bool
  co_streaming :: bool
  co_nb_of_chunks :: nat

text \<open>
  Modelled from the spec: the initialisation operation of \<^verbatim>\<open>graph.py\<close> (absent). The
  posterior is the initial one, the speed is the configured speed, no baseline ELBO exists
  yet, the statistics are at their zero point.
\<close>

definition spec_init :: "('p, 'st) model \<Rightarrow> controller_options \<Rightarrow> ('p, 'st) session" where
  "spec_init M co =
     \<lparr> posterior = posterior_0 M, speed = co_speed co, prev_elbo = None,
       global_stats = zero_stats M,
       chunk_stats = replicate (co_nb_of_chunks co) (zero_stats M) \<rparr>"

text \<open>
  Modelled from the spec: the operation \<^verbatim>\<open>init_globals\<close> of \<^verbatim>\<open>graph.py\<close> (absent). Section 4.2,
  mode "sum": before iterating chunks, initializes e, rho, beta to zero.
\<close>

definition spec_init_globals ::
  "('p, 'st) model \<Rightarrow> ('p, 'st) session \<Rightarrow> error + ('p, 'st) session" where
  "spec_init_globals M s = Inr (s\<lparr>global_stats := zero_stats M\<rparr>)"

text \<open>
  Modelled from the spec: the operation \<^verbatim>\<open>update_globals\<close> of \<^verbatim>\<open>graph.py\<close> (absent). Section
  4.2: in mode "sum" the local statistics of the chunk, computed under the current
  posterior, are added into the running totals; in mode "list" one record is retained for
  each chunk index, and an index beyond the records is an \<^verbatim>\<open>IndexError\<close>. The posterior is
  not mutated.
\<close>

definition spec_update_globals ::
  "('p, 'st) model \<Rightarrow> nat option \<Rightarrow> feed \<Rightarrow> ('p, 'st) session \<Rightarrow> error + ('p, 'st) session" where
  "spec_update_globals M which feed_dict s =
     (case which of
        None \<Rightarrow>
          Inr (s\<lparr>global_stats :=
                  add_stats M (global_stats s) (local_stats M (posterior s) feed_dict)\<rparr>)
      | Some i \<Rightarrow>
          if i < length (chunk_stats s)
          then Inr (s\<lparr>chunk_stats :=
                       (chunk_stats s)[i := local_stats M (posterior s) feed_dict]\<rparr>)
          else Inl IndexError)"

text \<open>
  Modelled from the spec: the statistics that the iteration of \<^verbatim>\<open>graph.py\<close> (absent) uses.
  Sections 4.2 and 4.5: those of the fed data when the data are in memory, the aggregated
  ones of the streaming pass otherwise.
\<close>

definition iteration_stats ::
  "('p, 'st) model \<Rightarrow> controller_options \<Rightarrow> feed \<Rightarrow> ('p, 'st) session \<Rightarrow> 'st" where
  "iteration_stats M co feed_dict s =
     (if \<not> co_streaming co then local_stats M (posterior s) feed_dict
      else if co_chunk_as_sum co then global_stats s
      else foldl (add_stats M) (zero_stats M) (chunk_stats s))"

text \<open>
  Modelled from the spec: the acceptance test of the step-size controller of \<^verbatim>\<open>graph.py\<close>
  (absent). Section 4.4: accepted if \<^verbatim>\<open>brutal_iteration\<close> is true, or the candidate ELBO
  is at least (or, when configured, more than) the previous ELBO, or no baseline ELBO
  exists yet. Sections 4.3 and 7: a candidate whose covariance fails the check is never
  committed.
\<close>

definition accepts ::
  "('p, 'st) model \<Rightarrow> controller_options \<Rightarrow> real option \<Rightarrow> 'p \<Rightarrow> real \<Rightarrow> bool" where
  "accepts M co baseline candidate elbo \<longleftrightarrow>
     is_psd M candidate \<and>
     (co_brutal_iteration co \<or>
      (case baseline of
         None \<Rightarrow> True
       | Some b \<Rightarrow> if co_strict co then b < elbo else b \<le> elbo))"

text \<open>
  Modelled from the spec: the step-size controller of \<^verbatim>\<open>graph.py\<close> (absent), with \<open>n\<close> retries
  left. Section 4.4: propose with the current speed and evaluate; on acceptance commit the
  candidate, its ELBO becomes the baseline and the speed is kept; otherwise multiply the
  speed by \<^verbatim>\<open>step_size_decrease_coef\<close> and propose again with the same statistics; when
  the retries are used up the iteration is Exhausted, the posterior is unchanged and the
  speed stays shrunk. The ELBO returned is that of the last candidate evaluated.
\<close>

fun step_size_controller ::
  "('p, 'st) model \<Rightarrow> controller_options \<Rightarrow> 'st \<Rightarrow> nat \<Rightarrow> ('p, 'st) session \<Rightarrow>
   (step_status \<times> real) \<times> ('p, 'st) session" where
  "step_size_controller M co stats 0 s =
     (let (candidate, elbo) = propose M stats (posterior s) (speed s) in
      if accepts M co (prev_elbo s) candidate elbo
      then ((Accepted, elbo), s\<lparr>posterior := candidate, prev_elbo := Some elbo\<rparr>)
      else ((Exhausted, elbo), s\<lparr>speed := speed s * co_step_size_decrease_coef co\<rparr>))"
| "step_size_controller M co stats (Suc n) s =
     (let (candidate, elbo) = propose M stats (posterior s) (speed s) in
      if accepts M co (prev_elbo s) candidate elbo
      then ((Accepted, elbo), s\<lparr>posterior := candidate, prev_elbo := Some elbo\<rparr>)
      else step_size_controller M co stats n
             (s\<lparr>speed := speed s * co_step_size_decrease_coef co\<rparr>))"

text \<open>
  Modelled from the spec: the operation \<^verbatim>\<open>iteration\<close> of \<^verbatim>\<open>graph.py\<close> (absent). Section 4.5,
  step 3: drive the step-size controller on the statistics of the iteration.
\<close>

definition spec_iteration ::
  "('p, 'st) model \<Rightarrow> controller_options \<Rightarrow> feed \<Rightarrow> ('p, 'st) session \<Rightarrow>
   error + (step_status \<times> real) \<times> ('p, 'st) session" where
  "spec_iteration M co feed_dict s =
     Inr (step_size_controller M co (iteration_stats M co feed_dict s) (co_max_retries co) s)"

text \<open>
  Modelled from the spec: the dict of operations that \<^verbatim>\<open>construct_bullseye_graph\<close> of
  \<^verbatim>\<open>graph.py\<close> (absent) returns, assembled from the operations above.
\<close>

definition spec_ops ::
  "('p, 'st) model \<Rightarrow> controller_options \<Rightarrow> (('p, 'st) session, step_status) ops" where
  "spec_ops M co =
     \<lparr> sess_new = spec_init M co,
       op_init = (\<lambda>s. Inr (spec_init M co)),
       op_iteration = spec_iteration M co,
       op_mu_cov = (\<lambda>s. Inr (mean_cov M (posterior s))),
       op_init_globals = spec_init_globals M,
       op_update_globals = spec_update_globals M \<rparr>"

section \<open>The trace of a run\<close>

text \<open>
  The local variables of \<^verbatim>\<open>run\<close> when the loop over the epochs starts, in a session that the
  initialisation left in state \<open>s0\<close>.
\<close>

definition run_start :: "'s \<Rightarrow> ('s, 'u) run_state" where
  "run_start s0 =
     \<lparr>rs_sess = s0, rs_out = [Sess_run Op_init []], rs_mus = [], rs_covs = [],
      rs_elbos = [], rs_times = [], rs_status = []\<rparr>"

text \<open>
  The local variables of \<^verbatim>\<open>run\<close> after each of the epochs \<open>epoch\<close>, ..., \<open>epoch + n - 1\<close>, in
  order: the states that \<open>run_epochs\<close> goes through.
\<close>

fun epoch_states ::
  "env \<Rightarrow> ('s, 'u) ops \<Rightarrow> graph \<Rightarrow> run_args \<Rightarrow> nat \<Rightarrow> nat \<Rightarrow> ('s, 'u) run_state \<Rightarrow>
   error + ('s, 'u) run_state list" where
  "epoch_states ev ops g a epoch 0 st = Inr []"
| "epoch_states ev ops g a epoch (Suc n) st =
     (case run_epoch ev ops g a epoch st of
        Inl e \<Rightarrow> Inl e
      | Inr st1 \<Rightarrow>
         (case epoch_states ev ops g a (Suc epoch) n st1 of
            Inl e \<Rightarrow> Inl e
          | Inr sts \<Rightarrow> Inr (st1 # sts)))"

text \<open>
  What a run with \<^verbatim>\<open>brutal_iteration\<close> false must satisfy, iteration by iteration. Each entry
  holds the status and ELBO of an iteration and the posterior after it; \<open>baseline\<close> is the
  ELBO of the previous accepted iteration, if any, and \<open>post\<close> the posterior before the
  iteration. An iteration is Accepted with an ELBO at least the baseline, and its ELBO is
  the baseline from then on; or it is Exhausted and the posterior is unchanged.
\<close>

fun trace_ok :: "real option \<Rightarrow> 'p \<Rightarrow> ((step_status \<times> real) \<times> 'p) list \<Rightarrow> bool" where
  "trace_ok baseline post [] = True"
| "trace_ok baseline post (((u, e), post1) # rest) =
     ((u = Accepted \<and> (case baseline of None \<Rightarrow> True | Some b \<Rightarrow> b \<le> e) \<and>
       trace_ok (Some e) post1 rest) \<or>
      (u = Exhausted \<and> post1 = post \<and> trace_ok baseline post rest))"

section \<open>Example inputs\<close>

text \<open>
  Concrete inputs on which the definitions are evaluated. The file \<^verbatim>\<open>data.csv\<close> has a header
  line and three data rows of a label and one feature. The helper \<^verbatim>\<open>to_one_hot\<close> of the
  example expands the labels 0 and 1 to width 2.
\<close>

definition example_env :: env where
  "example_env =
     \<lparr> fs = [''data.csv'' \<mapsto> [[0, 0], [1, 253], [0, 506], [1, 0]]],
       clock = real,
       expand_dims = (\<lambda>a axis. NDArray (1 # shape a) (elems a)),
       to_one_hot = (\<lambda>labels.
          NDArray [length labels, 2]
            (concat (map (\<lambda>y. [if y = 0 then 1 else 0, if y = 1 then 1 else 0]) labels))),
       get_predefined_functions = (\<lambda>model phi_option proj_option. Inr (0, 1, 2, 3)),
       construct_bullseye_graph = (\<lambda>g. Inr (0, 0)) \<rparr>"

text \<open>
  A model whose posterior and statistics are numbers: the statistics count the rows fed
  under \<^verbatim>\<open>X:0\<close>, a step moves the posterior by speed times statistics, and the ELBO of a
  candidate \<open>c\<close> is \<open>- |c - 3|\<close>.
\<close>

definition example_model :: "(real, real) model" where
  "example_model =
     \<lparr> posterior_0 = 0,
       zero_stats = 0,
       add_stats = (+),
       local_stats = (\<lambda>post feed_dict.
          case map_of feed_dict ''X:0'' of None \<Rightarrow> 0 | Some x \<Rightarrow> real (hd (shape x))),
       propose = (\<lambda>stats post sp. (post + sp * stats, - \<bar>post + sp * stats - 3\<bar>)),
       is_psd = (\<lambda>post. True),
       mean_cov = (\<lambda>post. (NDArray [1] [post], NDArray [1, 1] [1])) \<rparr>"

definition example_options :: controller_options where
  "example_options =
     \<lparr> co_brutal_iteration = False, co_speed = 1, co_step_size_decrease_coef = 1 / 2,
       co_strict = False, co_max_retries = 0, co_chunk_as_sum = True, co_streaming = True,
       co_nb_of_chunks = 3 \<rparr>"

definition example_set_model_args :: set_model_args where
  "example_set_model_args =
     \<lparr> sm_model = Some ''multilogit'', sm_phi_option = '''', sm_proj_option = '''',
       sm_Phi = None, sm_grad_Phi = None, sm_hess_Phi = None, sm_Projs = None \<rparr>"

text \<open>
  The set-up of a streaming run on \<^verbatim>\<open>data.csv\<close> with chunks of one row, of which the
  options ask for one only.
\<close>

definition example_calls :: "call list" where
  "example_calls =
     [Feed_with (feed_with_defaults\<lparr>fw_file := Some ''data.csv'', fw_chunksize := PInt 1,
                                     fw_k := Some 2\<rparr>),
      Set_model example_set_model_args,
      Init_with (Scalar (PInt 0)) (Scalar (PInt 1)),
      Set_options [(''number_of_chunk_max'', PInt 1)],
      Build]"

text \<open>The same set-up with \<open>k\<close> given to \<^verbatim>\<open>feed_with\<close> as 3.\<close>

definition example_calls_k_3 :: "call list" where
  "example_calls_k_3 =
     [Feed_with (feed_with_defaults\<lparr>fw_file := Some ''data.csv'', fw_chunksize := PInt 1,
                                     fw_k := Some 3\<rparr>),
      Set_model example_set_model_args,
      Init_with (Scalar (PInt 0)) (Scalar (PInt 1)),
      Set_options [(''number_of_chunk_max'', PInt 1)],
      Build]"

definition example_run_args :: run_args where
  "example_run_args =
     \<lparr> ra_n_iter = 3, ra_X = None, ra_Y = None, ra_keep_track = True,
       ra_timeline_path = None, ra_profiler_dir = None \<rparr>"

section \<open>Properties of set_options\<close>

lemma set_options_loop_option_list:
  "self_option_list (fst (set_options_loop g ws kw)) = self_option_list g"
  by (induction g ws kw rule: set_options_loop.induct) simp_all

lemma set_options_loop_frame:
  "\<exists>m. fst (set_options_loop g ws kw) = g\<lparr>self_opts := m\<rparr>"
proof (induction g ws kw rule: set_options_loop.induct)
  case (1 g ws)
  have "g = g\<lparr>self_opts := self_opts g\<rparr>" by simp
  then show ?case by (metis set_options_loop.simps(1) fst_conv)
next
  case (2 g ws key v kw)
  show ?case
  proof (cases "key \<in> set (self_option_list g)")
    case True
    with 2 obtain m where
      "fst (set_options_loop (g\<lparr>self_opts := (self_opts g)(key \<mapsto> v)\<rparr>) ws kw)
         = g\<lparr>self_opts := (self_opts g)(key \<mapsto> v)\<rparr>\<lparr>self_opts := m\<rparr>"
      by blast
    with True show ?thesis by auto
  next
    case False
    with 2 show ?thesis by simp
  qed
qed

lemma set_options_loop_opts:
  "distinct (map fst kw) \<Longrightarrow>
   self_opts (fst (set_options_loop g ws kw)) key =
     (if key \<in> set (self_option_list g)
      then (case map_of kw key of Some v \<Rightarrow> Some v | None \<Rightarrow> self_opts g key)
      else self_opts g key)"
proof (induction g ws kw rule: set_options_loop.induct)
  case (1 g ws)
  then show ?case by simp
next
  case (2 g ws k v kw)
  from 2(3) have nk: "map_of kw k = None" and dk: "distinct (map fst kw)"
    by (auto simp: map_of_eq_None_iff)
  show ?case
  proof (cases "k \<in> set (self_option_list g)")
    case True
    with 2(2)[OF _ dk] nk show ?thesis
      by (cases "key = k") (simp_all split: option.splits)
  next
    case False
    with 2(1)[OF _ dk] nk show ?thesis
      by (cases "key = k") (simp_all split: option.splits)
  qed
qed

lemma set_options_loop_warnings:
  "snd (set_options_loop g ws kw) =
     ws @ map (\<lambda>key. Unknown_parameter key set_options_name)
            (filter (\<lambda>key. key \<notin> set (self_option_list g)) (map fst kw))"
  by (induction g ws kw rule: set_options_loop.induct) simp_all

lemma options_present_init: "options_present Graph_init"
  by (simp add: options_present_def Graph_init_def options_default_def)

lemma set_options_split:
  "set_options g kwargs =
     (let g1 = fst (set_options_loop g [] kwargs); ws = snd (set_options_loop g [] kwargs) in
      case self_opts g1 ''keep_1d_prior'' of
        None \<Rightarrow> (ws, Inl AttributeError, g1)
      | Some keep \<Rightarrow>
          if truthy keep then
            ((if ''compute_prior_kernel'' \<in> set (map fst kwargs)
              then ws @ [Useless_parameter ''computed_prior_kernel'' ''keep_1d_prior''
                           set_options_name]
              else ws), Inr (),
             g1\<lparr>self_opts := (self_opts g1)(''compute_prior_kernel'' \<mapsto> PBool False)\<rparr>)
          else (ws, Inr (), g1))"
  by (simp add: set_options_def Let_def split_beta split: option.splits)

lemma keep_after_loop:
  assumes "options_present g" "distinct (map fst kwargs)"
  shows "\<exists>keep. self_opts (fst (set_options_loop g [] kwargs)) ''keep_1d_prior'' = Some keep \<and>
           truthy keep = keep_1d_prior_in_effect g kwargs"
proof -
  from assms(1) have k: "''keep_1d_prior'' \<in> set (self_option_list g)"
    and p: "self_opts g ''keep_1d_prior'' \<noteq> None"
    by (auto simp: options_present_def list_all_iff)
  from p obtain v0 where v0: "self_opts g ''keep_1d_prior'' = Some v0" by blast
  show ?thesis
    using k v0 set_options_loop_opts[OF assms(2), of g "[]" "''keep_1d_prior''"]
    by (simp add: keep_1d_prior_in_effect_def split: option.splits)
qed

text \<open>
  C6: a call of \<^verbatim>\<open>set_options\<close> that passes \<^verbatim>\<open>compute_prior_kernel=True\<close> while
  \<^verbatim>\<open>keep_1d_prior\<close> is in effect does not raise, leaves \<^verbatim>\<open>compute_prior_kernel\<close> at
  \<^verbatim>\<open>False\<close>, and issues the warning about the useless parameter.
\<close>

theorem set_options_keep_1d_prior_wins:
  assumes "options_present g" and "distinct (map fst kwargs)"
    and "map_of kwargs ''compute_prior_kernel'' = Some (PBool True)"
    and "keep_1d_prior_in_effect g kwargs"
  shows "fst (snd (set_options g kwargs)) = Inr () \<and>
         self_opts (snd (snd (set_options g kwargs))) ''compute_prior_kernel'' = Some (PBool False) \<and>
         Useless_parameter ''computed_prior_kernel'' ''keep_1d_prior'' set_options_name
           \<in> set (fst (set_options g kwargs))"
proof -
  from keep_after_loop[OF assms(1,2)] assms(4) obtain keep where
    keep: "self_opts (fst (set_options_loop g [] kwargs)) ''keep_1d_prior'' = Some keep" "truthy keep"
    by blast
  from assms(3) have mem: "''compute_prior_kernel'' \<in> set (map fst kwargs)"
    by (metis map_of_eq_None_iff option.distinct(1) set_map)
  show ?thesis
    using keep mem by (simp add: set_options_split Let_def)
qed

theorem set_options_keep_1d_prior_wins_witness:
  "options_present Graph_init \<and>
   distinct (map fst [(''compute_prior_kernel'', PBool True)]) \<and>
   map_of [(''compute_prior_kernel'', PBool True)] ''compute_prior_kernel'' = Some (PBool True) \<and>
   keep_1d_prior_in_effect Graph_init [(''compute_prior_kernel'', PBool True)] \<and>
   fst (snd (set_options Graph_init [(''compute_prior_kernel'', PBool True)])) = Inr () \<and>
   self_opts (snd (snd (set_options Graph_init [(''compute_prior_kernel'', PBool True)])))
     ''compute_prior_kernel'' = Some (PBool False)"
proof -
  have h1: "options_present Graph_init"
    by (simp add: options_present_def Graph_init_def options_default_def)
  have h2: "distinct (map fst [(''compute_prior_kernel'', PBool True)])" by simp
  have h3: "map_of [(''compute_prior_kernel'', PBool True)] ''compute_prior_kernel'' = Some (PBool True)"
    by simp
  have h4: "keep_1d_prior_in_effect Graph_init [(''compute_prior_kernel'', PBool True)]"
    by (simp add: keep_1d_prior_in_effect_def Graph_init_def options_default_def)
  from set_options_keep_1d_prior_wins[OF h1 h2 h3 h4] h1 h2 h3 h4 show ?thesis by blast
qed


text \<open>
  C7: a call of \<^verbatim>\<open>set_options\<close> with known and unknown names never raises. Each unknown
  name is warned about and its attribute is neither created nor changed. Each known name is
  assigned by the loop, and its value is the one the call leaves, except for
  \<^verbatim>\<open>compute_prior_kernel\<close> when \<^verbatim>\<open>keep_1d_prior\<close> is in effect. No attribute other than an
  option changes.
\<close>

theorem set_options_unknown_names:
  assumes "options_present g" and "distinct (map fst kwargs)"
  shows "fst (snd (set_options g kwargs)) = Inr () \<and>
    (\<forall>(key, v) \<in> set kwargs.
       if key \<notin> set (self_option_list g)
       then Unknown_parameter key set_options_name \<in> set (fst (set_options g kwargs)) \<and>
            self_opts (snd (snd (set_options g kwargs))) key = self_opts g key
       else self_opts (fst (set_options_loop g [] kwargs)) key = Some v \<and>
            (key \<noteq> ''compute_prior_kernel'' \<or> \<not> keep_1d_prior_in_effect g kwargs \<longrightarrow>
               self_opts (snd (snd (set_options g kwargs))) key = Some v)) \<and>
    (\<exists>m. snd (snd (set_options g kwargs)) = g\<lparr>self_opts := m\<rparr>)"
proof -
  let ?g1 = "fst (set_options_loop g [] kwargs)"
  let ?ws = "snd (set_options_loop g [] kwargs)"
  from keep_after_loop[OF assms] obtain keep where
    keep: "self_opts ?g1 ''keep_1d_prior'' = Some keep"
      "truthy keep = keep_1d_prior_in_effect g kwargs"
    by blast
  from assms(1) have cpk: "''compute_prior_kernel'' \<in> set (self_option_list g)"
    by (simp add: options_present_def)
  have noraise: "fst (snd (set_options g kwargs)) = Inr ()"
    using keep by (simp add: set_options_split Let_def)
  have ws_sub: "set ?ws \<subseteq> set (fst (set_options g kwargs))"
    using keep by (auto simp: set_options_split Let_def)
  have final: "self_opts (snd (snd (set_options g kwargs))) key =
      (if key = ''compute_prior_kernel'' \<and> keep_1d_prior_in_effect g kwargs
       then Some (PBool False) else self_opts ?g1 key)" for key
    using keep by (simp add: set_options_split Let_def)
  have each: "(if key \<notin> set (self_option_list g)
       then Unknown_parameter key set_options_name \<in> set (fst (set_options g kwargs)) \<and>
            self_opts (snd (snd (set_options g kwargs))) key = self_opts g key
       else self_opts ?g1 key = Some v \<and>
            (key \<noteq> ''compute_prior_kernel'' \<or> \<not> keep_1d_prior_in_effect g kwargs \<longrightarrow>
               self_opts (snd (snd (set_options g kwargs))) key = Some v))"
    if kv: "(key, v) \<in> set kwargs" for key v
  proof (cases "key \<in> set (self_option_list g)")
    case True
    from kv assms(2) have "map_of kwargs key = Some v" by simp
    with True set_options_loop_opts[OF assms(2), of g "[]" key]
    have "self_opts ?g1 key = Some v" by simp
    with True final[of key] show ?thesis by auto
  next
    case False
    from kv have "key \<in> set (map fst kwargs)" by force
    with False have "Unknown_parameter key set_options_name \<in> set ?ws"
      by (simp add: set_options_loop_warnings)
    with ws_sub have w: "Unknown_parameter key set_options_name \<in> set (fst (set_options g kwargs))"
      by blast
    from False cpk have "key \<noteq> ''compute_prior_kernel''" by blast
    with False final[of key] set_options_loop_opts[OF assms(2), of g "[]" key]
    have "self_opts (snd (snd (set_options g kwargs))) key = self_opts g key" by simp
    with False w show ?thesis by simp
  qed
  from set_options_loop_frame[of g "[]" kwargs] obtain m where m: "?g1 = g\<lparr>self_opts := m\<rparr>"
    by blast
  have frame: "\<exists>m. snd (snd (set_options g kwargs)) = g\<lparr>self_opts := m\<rparr>"
  proof (cases "truthy keep")
    case True
    with keep have "snd (snd (set_options g kwargs)) =
        ?g1\<lparr>self_opts := (self_opts ?g1)(''compute_prior_kernel'' \<mapsto> PBool False)\<rparr>"
      by (simp add: set_options_split Let_def)
    also have "\<dots> = g\<lparr>self_opts := (self_opts ?g1)(''compute_prior_kernel'' \<mapsto> PBool False)\<rparr>"
      by (subst m) simp
    finally show ?thesis by blast
  next
    case False
    with keep have "snd (snd (set_options g kwargs)) = ?g1"
      by (simp add: set_options_split Let_def)
    with m show ?thesis by metis
  qed
  from noraise each frame show ?thesis by blast
qed

theorem set_options_unknown_names_witness:
  "options_present Graph_init \<and>
   distinct (map fst [(''foo'', PInt 1), (''s'', PInt 20)]) \<and>
   fst (snd (set_options Graph_init [(''foo'', PInt 1), (''s'', PInt 20)])) = Inr () \<and>
   Unknown_parameter ''foo'' set_options_name
     \<in> set (fst (set_options Graph_init [(''foo'', PInt 1), (''s'', PInt 20)])) \<and>
   self_opts (snd (snd (set_options Graph_init [(''foo'', PInt 1), (''s'', PInt 20)]))) ''foo'' = None \<and>
   self_opts (snd (snd (set_options Graph_init [(''foo'', PInt 1), (''s'', PInt 20)]))) ''s''
     = Some (PInt 20)"
proof -
  have h1: "options_present Graph_init"
    by (simp add: options_present_def Graph_init_def options_default_def)
  have h2: "distinct (map fst [(''foo'', PInt 1), (''s'', PInt 20)])" by simp
  have foo: "''foo'' \<notin> set (self_option_list Graph_init)"
    by (simp add: Graph_init_def options_default_def)
  have s: "''s'' \<in> set (self_option_list Graph_init)"
    by (simp add: Graph_init_def options_default_def)
  have none: "self_opts Graph_init ''foo'' = None"
    by (simp add: Graph_init_def options_default_def)
  from set_options_unknown_names[OF h1 h2] foo s none h1 h2 show ?thesis by auto
qed

section \<open>Properties of the set-up methods\<close>

lemma build_fails_before_setup:
  "\<not> (self_feed_with_is_called g \<and> self_set_model_is_called g \<and> self_init_with_is_called g)
   \<Longrightarrow> build ev g = (Inl AssertionError, g)"
  by (simp add: build_def)

lemma run_fails_before_build:
  "\<not> self_build_is_called g \<Longrightarrow> run ev ops g a = Inl AssertionError"
  by (simp add: run_def)

lemma feed_with_arrays_flags:
  "self_feed_with_is_called (snd (feed_with_arrays ev g a)) = self_feed_with_is_called g \<and>
   self_set_model_is_called (snd (feed_with_arrays ev g a)) = self_set_model_is_called g \<and>
   self_init_with_is_called (snd (feed_with_arrays ev g a)) = self_init_with_is_called g \<and>
   self_build_is_called (snd (feed_with_arrays ev g a)) = self_build_is_called g"
  by (simp add: feed_with_arrays_def Let_def split: option.splits)

lemma feed_with_sizes_flags:
  "self_feed_with_is_called (snd (feed_with_sizes g a)) = self_feed_with_is_called g \<and>
   self_set_model_is_called (snd (feed_with_sizes g a)) = self_set_model_is_called g \<and>
   self_init_with_is_called (snd (feed_with_sizes g a)) = self_init_with_is_called g \<and>
   self_build_is_called (snd (feed_with_sizes g a)) = self_build_is_called g"
  by (simp add: feed_with_sizes_def split: option.splits)

lemma feed_with_file_flags:
  "self_feed_with_is_called (snd (feed_with_file ev g path a)) = self_feed_with_is_called g \<and>
   self_set_model_is_called (snd (feed_with_file ev g path a)) = self_set_model_is_called g \<and>
   self_init_with_is_called (snd (feed_with_file ev g path a)) = self_init_with_is_called g \<and>
   self_build_is_called (snd (feed_with_file ev g path a)) = self_build_is_called g"
  by (simp add: feed_with_file_def Let_def split: option.splits list.splits pyval.splits)

lemma feed_with_prior_flags:
  "self_set_model_is_called (snd (feed_with_prior g ps)) = self_set_model_is_called g \<and>
   self_init_with_is_called (snd (feed_with_prior g ps)) = self_init_with_is_called g \<and>
   self_build_is_called (snd (feed_with_prior g ps)) = self_build_is_called g"
  by (simp add: feed_with_prior_def Let_def
        split: option.splits arg.splits pyval.splits sum.splits prod.splits)

lemma feed_with_flags:
  "self_set_model_is_called (snd (feed_with ev g a)) = self_set_model_is_called g \<and>
   self_init_with_is_called (snd (feed_with ev g a)) = self_init_with_is_called g \<and>
   self_build_is_called (snd (feed_with ev g a)) = self_build_is_called g"
proof -
  define fed where "fed =
        (if fw_X a \<noteq> None \<or> fw_Y a \<noteq> None then feed_with_arrays ev g a
         else case fw_file a of
                None \<Rightarrow> feed_with_sizes g a
              | Some path \<Rightarrow> feed_with_file ev g path a)"
  have fed: "self_set_model_is_called (snd fed) = self_set_model_is_called g \<and>
   self_init_with_is_called (snd fed) = self_init_with_is_called g \<and>
   self_build_is_called (snd fed) = self_build_is_called g"
    unfolding fed_def
    using feed_with_arrays_flags[of ev g a] feed_with_sizes_flags[of g a]
      feed_with_file_flags[of ev g _ a]
    by (simp split: option.splits)
  have fw: "feed_with ev g a =
      (case fed of (Inl e, g1) \<Rightarrow> (Inl e, g1)
                 | (Inr u, g1) \<Rightarrow> feed_with_prior g1 (fw_prior_std a))"
    by (simp add: feed_with_def fed_def Let_def)
  show ?thesis
  proof (cases fed)
    case (Pair r g1)
    with fed have g1: "self_set_model_is_called g1 = self_set_model_is_called g"
      "self_init_with_is_called g1 = self_init_with_is_called g"
      "self_build_is_called g1 = self_build_is_called g" by simp_all
    show ?thesis
      using Pair g1 feed_with_prior_flags[of g1 "fw_prior_std a"]
      by (cases r) (simp_all add: fw)
  qed
qed

lemma set_model_flags:
  "self_feed_with_is_called (snd (set_model ev g a)) = self_feed_with_is_called g \<and>
   self_init_with_is_called (snd (set_model ev g a)) = self_init_with_is_called g \<and>
   self_build_is_called (snd (set_model ev g a)) = self_build_is_called g"
  by (simp add: set_model_def split: option.splits sum.splits prod.splits)

lemma init_with_flags:
  "self_feed_with_is_called (snd (init_with g mu_0 cov_0)) = self_feed_with_is_called g \<and>
   self_set_model_is_called (snd (init_with g mu_0 cov_0)) = self_set_model_is_called g \<and>
   self_build_is_called (snd (init_with g mu_0 cov_0)) = self_build_is_called g"
  by (simp add: init_with_def init_with_mu_def init_with_cov_def
        split: option.splits arg.splits sum.splits prod.splits)

lemma build_flags:
  "self_feed_with_is_called (snd (build ev g)) = self_feed_with_is_called g \<and>
   self_set_model_is_called (snd (build ev g)) = self_set_model_is_called g \<and>
   self_init_with_is_called (snd (build ev g)) = self_init_with_is_called g"
  by (simp add: build_def split: sum.splits prod.splits)

lemma set_options_loop_flags:
  "self_feed_with_is_called (fst (set_options_loop g ws kw)) = self_feed_with_is_called g \<and>
   self_set_model_is_called (fst (set_options_loop g ws kw)) = self_set_model_is_called g \<and>
   self_init_with_is_called (fst (set_options_loop g ws kw)) = self_init_with_is_called g \<and>
   self_build_is_called (fst (set_options_loop g ws kw)) = self_build_is_called g"
  by (induction g ws kw rule: set_options_loop.induct) simp_all

lemma set_options_flags:
  "self_feed_with_is_called (snd (snd (set_options g kw))) = self_feed_with_is_called g \<and>
   self_set_model_is_called (snd (snd (set_options g kw))) = self_set_model_is_called g \<and>
   self_init_with_is_called (snd (snd (set_options g kw))) = self_init_with_is_called g \<and>
   self_build_is_called (snd (snd (set_options g kw))) = self_build_is_called g"
  using set_options_loop_flags[of g "[]" kw]
  by (simp add: set_options_def Let_def split_beta split: option.splits)

lemma feed_flag_history:
  "self_feed_with_is_called (calls ev g cs) \<Longrightarrow>
   self_feed_with_is_called g \<or> list_ex is_Feed_with cs"
proof (induction cs arbitrary: g)
  case Nil
  then show ?case by simp
next
  case (Cons c cs)
  from Cons.IH[of "do_call ev g c"] Cons.prems
  have "self_feed_with_is_called (do_call ev g c) \<or> list_ex is_Feed_with cs" by simp
  then show ?case
    using set_model_flags[of ev g] init_with_flags[of g] set_options_flags[of g]
      build_flags[of ev g]
    by (cases c) auto
qed

lemma model_flag_history:
  "self_set_model_is_called (calls ev g cs) \<Longrightarrow>
   self_set_model_is_called g \<or> list_ex is_Set_model cs"
proof (induction cs arbitrary: g)
  case Nil
  then show ?case by simp
next
  case (Cons c cs)
  from Cons.IH[of "do_call ev g c"] Cons.prems
  have "self_set_model_is_called (do_call ev g c) \<or> list_ex is_Set_model cs" by simp
  then show ?case
    using feed_with_flags[of ev g] init_with_flags[of g] set_options_flags[of g]
      build_flags[of ev g]
    by (cases c) auto
qed

lemma init_flag_history:
  "self_init_with_is_called (calls ev g cs) \<Longrightarrow>
   self_init_with_is_called g \<or> list_ex is_Init_with cs"
proof (induction cs arbitrary: g)
  case Nil
  then show ?case by simp
next
  case (Cons c cs)
  from Cons.IH[of "do_call ev g c"] Cons.prems
  have "self_init_with_is_called (do_call ev g c) \<or> list_ex is_Init_with cs" by simp
  then show ?case
    using feed_with_flags[of ev g] set_model_flags[of ev g] set_options_flags[of g]
      build_flags[of ev g]
    by (cases c) auto
qed

lemma build_flag_history:
  "self_build_is_called (calls ev g cs) \<Longrightarrow>
   self_build_is_called g \<or> list_ex is_Build cs"
proof (induction cs arbitrary: g)
  case Nil
  then show ?case by simp
next
  case (Cons c cs)
  from Cons.IH[of "do_call ev g c"] Cons.prems
  have "self_build_is_called (do_call ev g c) \<or> list_ex is_Build cs" by simp
  then show ?case
    using feed_with_flags[of ev g] set_model_flags[of ev g] set_options_flags[of g]
      init_with_flags[of g]
    by (cases c) auto
qed

lemma Graph_init_flags:
  "\<not> self_feed_with_is_called Graph_init \<and> \<not> self_set_model_is_called Graph_init \<and>
   \<not> self_init_with_is_called Graph_init \<and> \<not> self_build_is_called Graph_init"
  by (simp add: Graph_init_def)

text \<open>
  C8: out-of-order calls fail at once. From a new object, after any sequence of calls of
  the set-up methods in which \<^verbatim>\<open>feed_with\<close>, \<^verbatim>\<open>set_model\<close> or \<^verbatim>\<open>init_with\<close> does not occur,
  \<^verbatim>\<open>build\<close> raises \<^verbatim>\<open>AssertionError\<close> and leaves the object as it was; after any sequence in
  which \<^verbatim>\<open>build\<close> does not occur, \<^verbatim>\<open>run\<close> raises \<^verbatim>\<open>AssertionError\<close>, whatever the
  operations and the arguments, and \<^verbatim>\<open>run\<close> assigns no attribute.
\<close>

theorem out_of_order_calls_fail:
  "(\<not> (list_ex is_Feed_with cs \<and> list_ex is_Set_model cs \<and> list_ex is_Init_with cs) \<longrightarrow>
      build ev (calls ev Graph_init cs) = (Inl AssertionError, calls ev Graph_init cs)) \<and>
   (\<not> list_ex is_Build cs \<longrightarrow> run ev ops (calls ev Graph_init cs) a = Inl AssertionError)"
proof (intro conjI impI)
  assume "\<not> (list_ex is_Feed_with cs \<and> list_ex is_Set_model cs \<and> list_ex is_Init_with cs)"
  with feed_flag_history[of ev Graph_init cs] model_flag_history[of ev Graph_init cs]
    init_flag_history[of ev Graph_init cs] Graph_init_flags
  have "\<not> (self_feed_with_is_called (calls ev Graph_init cs) \<and>
            self_set_model_is_called (calls ev Graph_init cs) \<and>
            self_init_with_is_called (calls ev Graph_init cs))"
    by blast
  then show "build ev (calls ev Graph_init cs) = (Inl AssertionError, calls ev Graph_init cs)"
    by (rule build_fails_before_setup)
next
  assume "\<not> list_ex is_Build cs"
  with build_flag_history[of ev Graph_init cs] Graph_init_flags
  have "\<not> self_build_is_called (calls ev Graph_init cs)" by blast
  then show "run ev ops (calls ev Graph_init cs) a = Inl AssertionError"
    by (rule run_fails_before_build)
qed

theorem out_of_order_calls_fail_witness:
  "\<not> (list_ex is_Feed_with [Set_model example_set_model_args, Set_options []] \<and>
       list_ex is_Set_model [Set_model example_set_model_args, Set_options []] \<and>
       list_ex is_Init_with [Set_model example_set_model_args, Set_options []]) \<and>
   fst (build example_env
          (calls example_env Graph_init [Set_model example_set_model_args, Set_options []]))
     = Inl AssertionError \<and>
   \<not> list_ex is_Build [Set_model example_set_model_args, Set_options []] \<and>
   run example_env (spec_ops example_model example_options)
     (calls example_env Graph_init [Set_model example_set_model_args, Set_options []])
     example_run_args = Inl AssertionError"
proof -
  let ?cs = "[Set_model example_set_model_args, Set_options []]"
  have h1: "\<not> (list_ex is_Feed_with ?cs \<and> list_ex is_Set_model ?cs \<and> list_ex is_Init_with ?cs)"
    by simp
  have h2: "\<not> list_ex is_Build ?cs" by simp
  from out_of_order_calls_fail
         [of ?cs example_env "spec_ops example_model example_options" example_run_args] h1 h2
  show ?thesis by simp
qed

text \<open>
  C9: for every 1-dimensional array passed as \<^verbatim>\<open>mu_0\<close>, \<^verbatim>\<open>init_with\<close> raises \<^verbatim>\<open>NameError\<close>
  and leaves the object as it was. No array passed as \<^verbatim>\<open>mu_0\<close>, of any number of
  dimensions, is stored as the initial mean, while a scalar is: with \<open>p = n\<close> known, the
  float \<open>c\<close> is stored as the vector of \<open>n\<close> entries \<open>c\<close>.
\<close>

theorem init_with_vector_mu_raises:
  "(length (shape m) = 1 \<longrightarrow> init_with g (Array m) cov_0 = (Inl NameError, g)) \<and>
   self_mu_0 (snd (init_with g (Array m) cov_0)) = self_mu_0 g \<and>
   (self_p g = Some n \<and> 0 \<le> n \<longrightarrow>
      fst (init_with g (Scalar (PFloat c)) (Scalar (PInt 1))) = Inr () \<and>
      self_mu_0 (snd (init_with g (Scalar (PFloat c)) (Scalar (PInt 1))))
        = Some (NDArray [nat n] (replicate (nat n) c)))"
proof (intro conjI impI)
  assume "length (shape m) = 1"
  then show "init_with g (Array m) cov_0 = (Inl NameError, g)"
    by (simp add: init_with_def init_with_mu_def)
next
  show "self_mu_0 (snd (init_with g (Array m) cov_0)) = self_mu_0 g"
    by (cases cov_0)
       (auto simp: init_with_def init_with_mu_def init_with_cov_def
             split: option.splits sum.splits)
next
  assume p: "self_p g = Some n \<and> 0 \<le> n"
  then show "fst (init_with g (Scalar (PFloat c)) (Scalar (PInt 1))) = Inr ()"
    by (simp add: init_with_def init_with_mu_def init_with_cov_def np_ones_def np_eye_def
          float_overflows_def)
  from p show "self_mu_0 (snd (init_with g (Scalar (PFloat c)) (Scalar (PInt 1))))
        = Some (NDArray [nat n] (replicate (nat n) c))"
    by (simp add: init_with_def init_with_mu_def init_with_cov_def np_ones_def np_eye_def
          scale_def float_overflows_def)
qed

theorem init_with_vector_mu_raises_witness:
  "length (shape (NDArray [2] [0, 0])) = 1 \<and>
   init_with (Graph_init\<lparr>self_p := Some 2\<rparr>) (Array (NDArray [2] [0, 0])) (Scalar (PInt 1))
     = (Inl NameError, Graph_init\<lparr>self_p := Some 2\<rparr>) \<and>
   self_mu_0 (snd (init_with (Graph_init\<lparr>self_p := Some 2\<rparr>) (Scalar (PFloat 3)) (Scalar (PInt 1))))
     = Some (NDArray [2] [3, 3])"
proof -
  have h: "length (shape (NDArray [2] [0, 0])) = 1" by simp
  have p: "self_p (Graph_init\<lparr>self_p := Some 2\<rparr>) = Some 2 \<and> (0::int) \<le> 2" by simp
  have r: "replicate (nat 2) (3::real) = [3, 3]" by (simp add: numeral_2_eq_2)
  from init_with_vector_mu_raises
         [of "NDArray [2] [0, 0]" "Graph_init\<lparr>self_p := Some 2\<rparr>" "Scalar (PInt 1)" 2 3]
       h p r
  show ?thesis by simp
qed

text \<open>
  C10: a call of \<^verbatim>\<open>feed_with\<close> in streaming mode (no \<^verbatim>\<open>X\<close>, no \<^verbatim>\<open>Y\<close>, the path of an
  existing file that is not empty, and \<open>k\<close>) that omits
  \<^verbatim>\<open>chunksize\<close> passes every assertion and raises \<^verbatim>\<open>TypeError\<close> at \<^verbatim>\<open>int(n/chunksize)\<close>,
  after \<^verbatim>\<open>k\<close>, \<^verbatim>\<open>d\<close>, \<^verbatim>\<open>file\<close> and \<^verbatim>\<open>chunksize\<close> have been assigned.
\<close>

theorem feed_with_streaming_without_chunksize:
  assumes "fw_X a = None" and "fw_Y a = None" and "fw_file a = Some path"
    and "fw_k a = Some k" and "fw_chunksize a = PNone"
    and "fs ev path = Some (header # rows)"
  shows "feed_with ev g a =
           (Inl TypeError,
            g\<lparr>self_k := Some k, self_d := Some (int (length header) - 1),
              self_file := Some path, self_chunksize := PNone\<rparr>)"
  using assms by (simp add: feed_with_def feed_with_file_def Let_def)

theorem feed_with_streaming_without_chunksize_witness:
  "feed_with example_env Graph_init
     (feed_with_defaults\<lparr>fw_file := Some ''data.csv'', fw_k := Some 2\<rparr>) =
   (Inl TypeError,
    Graph_init\<lparr>self_k := Some 2, self_d := Some 1, self_file := Some ''data.csv'',
      self_chunksize := PNone\<rparr>)"
proof -
  let ?a = "feed_with_defaults\<lparr>fw_file := Some ''data.csv'', fw_k := Some 2\<rparr>"
  have h1: "fw_X ?a = None" "fw_Y ?a = None" "fw_file ?a = Some ''data.csv''"
    "fw_k ?a = Some 2" "fw_chunksize ?a = PNone"
    by (simp_all add: feed_with_defaults_def)
  have h2: "fs example_env ''data.csv'' = Some ([0, 0] # [[1, 253], [0, 506], [1, 0]])"
    by (simp add: example_env_def)
  from feed_with_streaming_without_chunksize[OF h1 h2, of Graph_init] show ?thesis by simp
qed

text \<open>
  For contrast, a chunk size that is given and is not an integer is caught by the
  assertion, before anything is assigned.
\<close>

lemma feed_with_chunksize_assertion:
  assumes "fw_X a = None" and "fw_Y a = None" and "fw_file a = Some path"
    and "fw_chunksize a \<noteq> PNone" and "\<not> type_is_int (fw_chunksize a)"
    and "fs ev path = Some lines"
  shows "feed_with ev g a = (Inl AssertionError, g)"
  using assms by (simp add: feed_with_def feed_with_file_def Let_def)

section \<open>The example run\<close>

lemma chunk_rows_Nil: "chunk_rows c [] = []"
  by (simp add: chunk_rows.simps)

lemma chunk_rows_Cons:
  "0 < c \<Longrightarrow> chunk_rows c (row # rows) = take c (row # rows) # chunk_rows c (drop c (row # rows))"
  by (subst chunk_rows.simps) simp

lemma small_int_has_float: "\<not> float_overflows 0" "\<not> float_overflows 1"
  by (simp_all add: float_overflows_def)

lemma example_graph:
  "self_file (calls example_env Graph_init example_calls) = Some ''data.csv'' \<and>
   self_chunksize (calls example_env Graph_init example_calls) = PInt 1 \<and>
   self_build_is_called (calls example_env Graph_init example_calls) \<and>
   getattr (calls example_env Graph_init example_calls) ''chunk_as_sum'' = Inr (PBool True) \<and>
   getattr (calls example_env Graph_init example_calls) ''silent'' = Inr (PBool True) \<and>
   getattr (calls example_env Graph_init example_calls) ''number_of_chunk_max'' = Inr (PInt 1)"
  by (simp add: example_calls_def example_env_def Graph_init_def options_default_def
        feed_with_def feed_with_file_def feed_with_prior_def feed_with_defaults_def
        set_model_def example_set_model_args_def init_with_def init_with_mu_def
        init_with_cov_def set_options_def build_def getattr_def np_eye_def np_ones_def
        int_truediv_def small_int_has_float Let_def)

lemma example_read_table:
  "read_table example_env (Some ''data.csv'') (PInt 1) =
     Inr (Chunks 2 [[[1, 253]], [[0, 506]], [[1, 0]]])"
  by (simp add: read_table_def example_env_def chunk_rows_Cons chunk_rows_Nil)

lemma example_decode:
  "decode_chunk example_env 2 [[1, 253]] = Inr (NDArray [1, 1] [1], NDArray [1, 2] [0, 1])"
  "decode_chunk example_env 2 [[0, 506]] = Inr (NDArray [1, 1] [2], NDArray [1, 2] [1, 0])"
  "decode_chunk example_env 2 [[1, 0]] = Inr (NDArray [1, 1] [0], NDArray [1, 2] [0, 1])"
  by (simp_all add: decode_chunk_def example_env_def)

lemma example_update:
  "op_update_globals (spec_ops example_model example_options) None
     (chunk_feed (NDArray (Suc 0 # sh) xs) Y) s =
     Inr (s\<lparr>global_stats := global_stats s + 1\<rparr>)"
  by (simp add: spec_ops_def spec_update_globals_def example_model_def chunk_feed_def)

lemma example_init_globals:
  "op_init_globals (spec_ops example_model example_options) s = Inr (s\<lparr>global_stats := 0\<rparr>)"
  by (simp add: spec_ops_def spec_init_globals_def example_model_def)

lemma example_pass_of:
  assumes "self_file g = Some ''data.csv''" and "self_chunksize g = PInt 1"
    and "getattr g ''chunk_as_sum'' = Inr (PBool True)"
    and "getattr g ''silent'' = Inr (PBool True)"
    and "getattr g ''number_of_chunk_max'' = Inr (PInt 1)"
  shows "set_globals_from_chunks example_env (spec_ops example_model example_options)
     g False False (s, out) =
   Inr (s\<lparr>global_stats := 2\<rparr>,
        out @ [Sess_run Op_init_globals [],
               Sess_run (Op_update_globals None)
                 (chunk_feed (NDArray [1, 1] [1]) (NDArray [1, 2] [0, 1])),
               Sess_run (Op_update_globals None)
                 (chunk_feed (NDArray [1, 1] [2]) (NDArray [1, 2] [1, 0]))])"
  using assms
  by (simp add: set_globals_from_chunks_def example_read_table example_decode example_update
        example_init_globals)

lemma example_pass:
  "set_globals_from_chunks example_env (spec_ops example_model example_options)
     (calls example_env Graph_init example_calls) False False (s, out) =
   Inr (s\<lparr>global_stats := 2\<rparr>,
        out @ [Sess_run Op_init_globals [],
               Sess_run (Op_update_globals None)
                 (chunk_feed (NDArray [1, 1] [1]) (NDArray [1, 2] [0, 1])),
               Sess_run (Op_update_globals None)
                 (chunk_feed (NDArray [1, 1] [2]) (NDArray [1, 2] [1, 0]))])"
  using example_graph by (intro example_pass_of) simp_all

lemma example_iteration:
  "op_iteration (spec_ops example_model example_options) [] s =
     Inr (if (case prev_elbo s of None \<Rightarrow> True
              | Some b \<Rightarrow> b \<le> - \<bar>posterior s + speed s * global_stats s - 3\<bar>)
          then ((Accepted, - \<bar>posterior s + speed s * global_stats s - 3\<bar>),
                s\<lparr>posterior := posterior s + speed s * global_stats s,
                  prev_elbo := Some (- \<bar>posterior s + speed s * global_stats s - 3\<bar>)\<rparr>)
          else ((Exhausted, - \<bar>posterior s + speed s * global_stats s - 3\<bar>),
                s\<lparr>speed := speed s * (1 / 2)\<rparr>))"
  by (cases "prev_elbo s")
     (simp_all add: spec_ops_def spec_iteration_def iteration_stats_def example_options_def
        example_model_def accepts_def)

lemma example_mu_cov:
  "op_mu_cov (spec_ops example_model example_options) s =
     Inr (NDArray [1] [posterior s], NDArray [1, 1] [1])"
  by (simp add: spec_ops_def example_model_def)

lemma example_init:
  "op_init (spec_ops example_model example_options) s =
     Inr \<lparr>posterior = 0, speed = 1, prev_elbo = None, global_stats = 0, chunk_stats = [0, 0, 0]\<rparr>"
  by (simp add: spec_ops_def spec_init_def example_model_def example_options_def
        numeral_3_eq_3)

lemma example_clock: "clock example_env n = real n"
  by (simp add: example_env_def)

lemma example_run:
  "run example_env (spec_ops example_model example_options)
     (calls example_env Graph_init example_calls) example_run_args =
   Inr (\<lparr>r_mus = Trajectory [NDArray [1] [2], NDArray [1] [4], NDArray [1] [4]],
         r_covs = Trajectory [NDArray [1, 1] [1], NDArray [1, 1] [1], NDArray [1, 1] [1]],
         r_elbos = [], r_times = [1, 1, 1],
         r_status = [Accepted, Accepted, Exhausted]\<rparr>,
        [Sess_run Op_init [],
         Sess_run Op_init_globals [],
         Sess_run (Op_update_globals None) (chunk_feed (NDArray [1, 1] [1]) (NDArray [1, 2] [0, 1])),
         Sess_run (Op_update_globals None) (chunk_feed (NDArray [1, 1] [2]) (NDArray [1, 2] [1, 0])),
         Sess_run Op_iteration [], Sess_run Op_mu_cov [], Print_iteration Accepted (- 1),
         Sess_run Op_init_globals [],
         Sess_run (Op_update_globals None) (chunk_feed (NDArray [1, 1] [1]) (NDArray [1, 2] [0, 1])),
         Sess_run (Op_update_globals None) (chunk_feed (NDArray [1, 1] [2]) (NDArray [1, 2] [1, 0])),
         Sess_run Op_iteration [], Sess_run Op_mu_cov [], Print_iteration Accepted (- 1),
         Sess_run Op_init_globals [],
         Sess_run (Op_update_globals None) (chunk_feed (NDArray [1, 1] [1]) (NDArray [1, 2] [0, 1])),
         Sess_run (Op_update_globals None) (chunk_feed (NDArray [1, 1] [2]) (NDArray [1, 2] [1, 0])),
         Sess_run Op_iteration [], Sess_run Op_mu_cov [], Print_iteration Exhausted (- 3)])"
  using example_graph
  by (simp add: run_def run_epoch_def epoch_data_def example_run_args_def example_pass
        example_iteration example_mu_cov example_init numeral_3_eq_3 example_clock)

section \<open>Properties of run and of the streaming pass\<close>

text \<open>No completed run appends to the list of ELBO values, whatever the operations.\<close>

lemma run_epoch_elbos:
  "run_epoch ev ops g a epoch st = Inr st1 \<Longrightarrow>
   rs_elbos st1 = rs_elbos st \<and> length (rs_status st1) = Suc (length (rs_status st))"
  by (auto simp: run_epoch_def Let_def split: sum.splits prod.splits if_splits)

lemma run_epochs_elbos:
  "run_epochs ev ops g a epoch n st = Inr st1 \<Longrightarrow>
   rs_elbos st1 = rs_elbos st \<and> length (rs_status st1) = length (rs_status st) + n"
proof (induction n arbitrary: epoch st)
  case 0
  then show ?case by simp
next
  case (Suc n)
  from Suc.prems obtain st2 where
    st2: "run_epoch ev ops g a epoch st = Inr st2"
    and rest: "run_epochs ev ops g a (Suc epoch) n st2 = Inr st1"
    by (auto split: sum.splits)
  from run_epoch_elbos[OF st2] Suc.IH[OF rest] show ?case by simp
qed

lemma run_elbos_empty:
  assumes "run ev ops g a = Inr (res, out)"
  shows "r_elbos res = [] \<and> length (r_status res) = nat (ra_n_iter a)"
proof -
  from assms obtain s0 st where
    st: "run_epochs ev ops g a 0 (nat (ra_n_iter a))
           \<lparr>rs_sess = s0, rs_out = [Sess_run Op_init []], rs_mus = [], rs_covs = [],
            rs_elbos = [], rs_times = [], rs_status = []\<rparr> = Inr st"
    and res: "r_elbos res = rs_elbos st" "r_status res = rs_status st"
    by (auto simp: run_def split: if_splits sum.splits prod.splits)
  from run_epochs_elbos[OF st] res show ?thesis by simp
qed

text \<open>
  C1: with \<^verbatim>\<open>number_of_chunk_max\<close> set to 1 and a file of three chunks, a streaming pass
  runs the update operation on two chunks, not on one: the test of line 498 compares the
  index of the chunk just processed, which counts from 0, with the maximum.
\<close>

theorem chunk_max_one_processes_two_chunks:
  "read_table example_env (self_file (calls example_env Graph_init example_calls))
     (self_chunksize (calls example_env Graph_init example_calls)) =
     Inr (Chunks 2 [[[1, 253]], [[0, 506]], [[1, 0]]]) \<and>
   getattr (calls example_env Graph_init example_calls) ''number_of_chunk_max'' = Inr (PInt 1) \<and>
   map_sum id (\<lambda>w. chunks_processed (snd w))
     (set_globals_from_chunks example_env (spec_ops example_model example_options)
        (calls example_env Graph_init example_calls) False False
        (spec_init example_model example_options, [])) = Inr 2"
  using example_graph by (simp add: example_pass example_read_table chunks_processed_def)

text \<open>
  C2: a completed call of \<^verbatim>\<open>run\<close> with three iterations returns an empty list under
  \<^verbatim>\<open>elbos\<close>, next to three status values; the ELBO of each iteration is printed only.
\<close>

theorem run_returns_no_elbos:
  "map_sum id (\<lambda>(res, out). (r_elbos res, r_status res, printed out))
     (run example_env (spec_ops example_model example_options)
        (calls example_env Graph_init example_calls) example_run_args) =
   Inr ([], [Accepted, Accepted, Exhausted],
        [(Accepted, - 1), (Accepted, - 1), (Exhausted, - 3)])"
  by (simp add: example_run)

section \<open>Properties of the decoding and the aggregation\<close>

lemma getattr_self_k: "getattr (g\<lparr>self_k := k'\<rparr>) name = getattr g name"
  by (simp add: getattr_def)

lemma stream_chunks_self_k:
  "stream_chunks ev ops (g\<lparr>self_k := k'\<rparr>) timeline profiler ncols i chunks w =
   stream_chunks ev ops g timeline profiler ncols i chunks w"
proof (induction chunks arbitrary: i w)
  case Nil
  then show ?case by simp
next
  case (Cons chunk rest)
  obtain s out where w: "w = (s, out)" by (cases w)
  show ?case
    unfolding w
    by (simp add: getattr_self_k Cons.IH Let_def split_beta
          split del: if_split cong: sum.case_cong if_cong)
qed

text \<open>
  The pass over the chunks never reads the attribute \<^verbatim>\<open>k\<close>: whatever \<^verbatim>\<open>to_one_hot\<close> and the
  operations are, two objects that differ in \<^verbatim>\<open>k\<close> alone feed the same label blocks.
\<close>

lemma set_globals_from_chunks_self_k:
  "set_globals_from_chunks ev ops (g\<lparr>self_k := k'\<rparr>) timeline profiler w =
   set_globals_from_chunks ev ops g timeline profiler w"
  by (simp add: set_globals_from_chunks_def getattr_self_k stream_chunks_self_k
        cong: sum.case_cong reader.case_cong)

text \<open>
  A chunk that is decoded gives a feature block with one row for each row of the chunk,
  holding the values of the columns after column 0, each divided by 253.
\<close>

lemma decode_chunk_features:
  assumes "decode_chunk ev ncols data = Inr (X, Y)"
  shows "shape X = [length data, ncols - 1] \<and>
         elems X = concat (map (\<lambda>row. map (\<lambda>v. v / 253) (tl row)) data) \<and>
         Y = to_one_hot ev (map hd data)"
  using assms by (auto simp: decode_chunk_def split: if_splits)

lemma example_graph_k_3:
  "self_k (calls example_env Graph_init example_calls_k_3) = Some 3 \<and>
   self_file (calls example_env Graph_init example_calls_k_3) = Some ''data.csv'' \<and>
   self_chunksize (calls example_env Graph_init example_calls_k_3) = PInt 1 \<and>
   self_build_is_called (calls example_env Graph_init example_calls_k_3) \<and>
   getattr (calls example_env Graph_init example_calls_k_3) ''chunk_as_sum'' = Inr (PBool True) \<and>
   getattr (calls example_env Graph_init example_calls_k_3) ''silent'' = Inr (PBool True) \<and>
   getattr (calls example_env Graph_init example_calls_k_3) ''number_of_chunk_max''
     = Inr (PInt 1)"
  by (simp add: example_calls_k_3_def example_env_def Graph_init_def options_default_def
        feed_with_def feed_with_file_def feed_with_prior_def feed_with_defaults_def
        set_model_def example_set_model_args_def init_with_def init_with_mu_def
        init_with_cov_def set_options_def build_def getattr_def np_eye_def np_ones_def
        int_truediv_def small_int_has_float Let_def)

text \<open>
  C4: on the example file, whose chunks hold the labels 1 and 0, the object set up with
  \<^verbatim>\<open>k = 3\<close> feeds under \<^verbatim>\<open>Y:0\<close> label blocks of width 2, not 3: the width is the one
  \<^verbatim>\<open>to_one_hot\<close> chooses from the label column, since \<^verbatim>\<open>k\<close> is not passed to it. The feature
  blocks fed under \<^verbatim>\<open>X:0\<close> hold the features divided by 253.
\<close>

theorem label_block_ignores_k:
  "self_k (calls example_env Graph_init example_calls_k_3) = Some 3 \<and>
   set_globals_from_chunks example_env (spec_ops example_model example_options)
     (calls example_env Graph_init example_calls_k_3) False False
     (spec_init example_model example_options, []) =
   Inr ((spec_init example_model example_options)\<lparr>global_stats := 2\<rparr>,
        [Sess_run Op_init_globals [],
         Sess_run (Op_update_globals None)
           [(''X:0'', NDArray [1, 1] [1]), (''Y:0'', NDArray [1, 2] [0, 1])],
         Sess_run (Op_update_globals None)
           [(''X:0'', NDArray [1, 1] [2]), (''Y:0'', NDArray [1, 2] [1, 0])]])"
proof -
  note g = example_graph_k_3
  from g have "set_globals_from_chunks example_env (spec_ops example_model example_options)
     (calls example_env Graph_init example_calls_k_3) False False
     (spec_init example_model example_options, []) =
   Inr ((spec_init example_model example_options)\<lparr>global_stats := 2\<rparr>,
        [] @ [Sess_run Op_init_globals [],
               Sess_run (Op_update_globals None)
                 (chunk_feed (NDArray [1, 1] [1]) (NDArray [1, 2] [0, 1])),
               Sess_run (Op_update_globals None)
                 (chunk_feed (NDArray [1, 1] [2]) (NDArray [1, 2] [1, 0]))])"
    by (intro example_pass_of) simp_all
  with g show ?thesis by (simp add: chunk_feed_def)
qed

lemma stream_chunks_out:
  "stream_chunks ev ops g timeline profiler ncols i chunks (s, out) = Inr (s', out1) \<Longrightarrow>
   \<exists>out2. stream_chunks ev ops g timeline profiler ncols i chunks (s, out') = Inr (s', out2)"
proof (induction chunks arbitrary: i s out out')
  case Nil
  then show ?case by simp
next
  case (Cons chunk rest)
  from Cons.prems obtain X Y cas s1 sil m stop where
    dec: "decode_chunk ev ncols chunk = Inr (X, Y)"
    and cas: "getattr g ''chunk_as_sum'' = Inr cas"
    and upd: "op_update_globals ops (if truthy cas then None else Some i) (chunk_feed X Y) s
                = Inr s1"
    and sil: "getattr g ''silent'' = Inr sil"
    and m: "getattr g ''number_of_chunk_max'' = Inr m"
    and stop: "chunk_max_reached i m = Inr stop"
    by (auto simp: Let_def split: sum.splits prod.splits)
  show ?case
  proof (cases stop)
    case True
    with Cons.prems dec cas upd sil m stop have "s' = s1"
      by (simp add: Let_def)
    with True dec cas upd sil m stop show ?thesis
      by (simp add: Let_def)
  next
    case False
    with Cons.prems dec cas upd sil m stop obtain outA where
      "stream_chunks ev ops g timeline profiler ncols (Suc i) rest (s1, outA) = Inr (s', out1)"
      by (simp add: Let_def)
    from Cons.IH[OF this] False dec cas upd sil m stop show ?thesis
      by (simp add: Let_def)
  qed
qed


lemma spec_update_sum_frame:
  "op_update_globals (spec_ops M co) None feed_dict s = Inr s1 \<Longrightarrow>
   s1\<lparr>global_stats := x\<rparr> = s\<lparr>global_stats := x\<rparr>"
  by (auto simp: spec_ops_def spec_update_globals_def)

lemma stream_chunks_sum_frame:
  assumes "getattr g ''chunk_as_sum'' = Inr cas" and "truthy cas"
  shows "stream_chunks ev (spec_ops M co) g timeline profiler ncols i chunks (s, out) = Inr (s', out1)
         \<Longrightarrow> s'\<lparr>global_stats := x\<rparr> = s\<lparr>global_stats := x\<rparr>"
proof (induction chunks arbitrary: i s out)
  case Nil
  then show ?case by simp
next
  case (Cons chunk rest)
  from Cons.prems assms obtain X Y s1 sil m stop where
    dec: "decode_chunk ev ncols chunk = Inr (X, Y)"
    and upd: "op_update_globals (spec_ops M co) None (chunk_feed X Y) s = Inr s1"
    and sil: "getattr g ''silent'' = Inr sil"
    and m: "getattr g ''number_of_chunk_max'' = Inr m"
    and stop: "chunk_max_reached i m = Inr stop"
    by (auto simp: Let_def split: sum.splits prod.splits)
  from spec_update_sum_frame[OF upd] have s1: "s1\<lparr>global_stats := x\<rparr> = s\<lparr>global_stats := x\<rparr>" .
  show ?case
  proof (cases stop)
    case True
    with Cons.prems assms dec upd sil m stop have "s' = s1"
      by (simp add: Let_def)
    with s1 show ?thesis by simp
  next
    case False
    with Cons.prems assms dec upd sil m stop obtain outA where
      "stream_chunks ev (spec_ops M co) g timeline profiler ncols (Suc i) rest (s1, outA)
         = Inr (s', out1)"
      by (simp add: Let_def)
    from Cons.IH[OF this] s1 show ?thesis by simp
  qed
qed

text \<open>
  C5: in "sum" mode (\<^verbatim>\<open>chunk_as_sum\<close> true), when a pass of the aggregation over the file
  returns, a second pass over the same file from the state the first one left, with no
  update committed in between, returns too and leaves the same state: the same global
  statistics, under the same posterior. The operations are those modelled from the
  specification.
\<close>

theorem aggregation_twice_same_statistics:
  assumes "getattr g ''chunk_as_sum'' = Inr cas" and "truthy cas"
    and "set_globals_from_chunks ev (spec_ops M co) g timeline profiler (s, out) = Inr (s1, out1)"
  shows "\<exists>out2. set_globals_from_chunks ev (spec_ops M co) g timeline profiler (s1, out')
                 = Inr (s1, out2)"
proof -
  from assms obtain ncols chunks where
    rd: "read_table ev (self_file g) (self_chunksize g) = Inr (Chunks ncols chunks)"
    and st: "stream_chunks ev (spec_ops M co) g timeline profiler ncols 0 chunks
               (s\<lparr>global_stats := zero_stats M\<rparr>, out @ [Sess_run Op_init_globals []])
             = Inr (s1, out1)"
    by (auto simp: set_globals_from_chunks_def spec_ops_def spec_init_globals_def
          split: sum.splits reader.splits)
  from stream_chunks_sum_frame[OF assms(1,2) st, of "zero_stats M"]
  have "s1\<lparr>global_stats := zero_stats M\<rparr> = s\<lparr>global_stats := zero_stats M\<rparr>" by simp
  moreover from stream_chunks_out[OF st, of "out' @ [Sess_run Op_init_globals []]"]
  obtain out2 where
    "stream_chunks ev (spec_ops M co) g timeline profiler ncols 0 chunks
       (s\<lparr>global_stats := zero_stats M\<rparr>, out' @ [Sess_run Op_init_globals []]) = Inr (s1, out2)"
    by blast
  ultimately show ?thesis
    using assms(1,2) rd
    by (simp add: set_globals_from_chunks_def spec_ops_def spec_init_globals_def)
qed

theorem aggregation_twice_same_statistics_witness:
  "set_globals_from_chunks example_env (spec_ops example_model example_options)
     (calls example_env Graph_init example_calls) False False
     (spec_init example_model example_options, [])
   = Inr ((spec_init example_model example_options)\<lparr>global_stats := 2\<rparr>,
          [Sess_run Op_init_globals [],
           Sess_run (Op_update_globals None) (chunk_feed (NDArray [1, 1] [1]) (NDArray [1, 2] [0, 1])),
           Sess_run (Op_update_globals None) (chunk_feed (NDArray [1, 1] [2]) (NDArray [1, 2] [1, 0]))]) \<and>
   (\<exists>out2. set_globals_from_chunks example_env (spec_ops example_model example_options)
            (calls example_env Graph_init example_calls) False False
            ((spec_init example_model example_options)\<lparr>global_stats := 2\<rparr>, [])
          = Inr ((spec_init example_model example_options)\<lparr>global_stats := 2\<rparr>, out2))"
proof -
  let ?g = "calls example_env Graph_init example_calls"
  have h1: "getattr ?g ''chunk_as_sum'' = Inr (PBool True)"
    using example_graph by simp
  have h2: "truthy (PBool True)" by simp
  have h3: "set_globals_from_chunks example_env (spec_ops example_model example_options)
     ?g False False (spec_init example_model example_options, [])
   = Inr ((spec_init example_model example_options)\<lparr>global_stats := 2\<rparr>,
          [Sess_run Op_init_globals [],
           Sess_run (Op_update_globals None) (chunk_feed (NDArray [1, 1] [1]) (NDArray [1, 2] [0, 1])),
           Sess_run (Op_update_globals None) (chunk_feed (NDArray [1, 1] [2]) (NDArray [1, 2] [1, 0]))])"
    by (simp add: example_pass)
  from aggregation_twice_same_statistics[OF h1 h2 h3, of "[]"] h3 show ?thesis by blast
qed

section \<open>Properties of the step-size control\<close>

lemma printed_append: "printed (xs @ ys) = printed xs @ printed ys"
  by (induction xs rule: printed.induct) simp_all

lemma stream_chunks_printed:
  "stream_chunks ev ops g timeline profiler ncols i chunks (s, out) = Inr (s', out1) \<Longrightarrow>
   printed out1 = printed out"
proof (induction chunks arbitrary: i s out)
  case Nil
  then show ?case by simp
next
  case (Cons chunk rest)
  from Cons.prems obtain X Y cas s1 sil m stop where
    dec: "decode_chunk ev ncols chunk = Inr (X, Y)"
    and cas: "getattr g ''chunk_as_sum'' = Inr cas"
    and upd: "op_update_globals ops (if truthy cas then None else Some i) (chunk_feed X Y) s
                = Inr s1"
    and sil: "getattr g ''silent'' = Inr sil"
    and m: "getattr g ''number_of_chunk_max'' = Inr m"
    and stop: "chunk_max_reached i m = Inr stop"
    by (auto simp: Let_def split: sum.splits prod.splits)
  define outA where "outA =
      out @ (if profiler then [Profiler_prepare_next_step] else [])
          @ [Sess_run (Op_update_globals (if truthy cas then None else Some i)) (chunk_feed X Y)]
          @ (if timeline then [Timeline_update] else [])
          @ (if profiler then [Profiler_profile_operations] else [])
          @ (if \<not> truthy sil then [Print_one_chunk_done] else [])"
  have pA: "printed outA = printed out"
    by (simp add: outA_def printed_append)
  show ?case
  proof (cases stop)
    case True
    with Cons.prems dec cas upd sil m stop have "out1 = outA"
      by (simp add: Let_def outA_def)
    with pA show ?thesis by simp
  next
    case False
    with Cons.prems dec cas upd sil m stop have
      "stream_chunks ev ops g timeline profiler ncols (Suc i) rest (s1, outA) = Inr (s', out1)"
      by (simp add: Let_def outA_def)
    from Cons.IH[OF this] pA show ?thesis by simp
  qed
qed

lemma spec_update_posterior:
  "op_update_globals (spec_ops M co) which feed_dict s = Inr s1 \<Longrightarrow>
   posterior s1 = posterior s \<and> prev_elbo s1 = prev_elbo s"
  by (auto simp: spec_ops_def spec_update_globals_def split: option.splits if_splits)

lemma stream_chunks_posterior:
  "stream_chunks ev (spec_ops M co) g timeline profiler ncols i chunks (s, out) = Inr (s', out1) \<Longrightarrow>
   posterior s' = posterior s \<and> prev_elbo s' = prev_elbo s"
proof (induction chunks arbitrary: i s out)
  case Nil
  then show ?case by simp
next
  case (Cons chunk rest)
  from Cons.prems obtain X Y cas s1 sil m stop where
    dec: "decode_chunk ev ncols chunk = Inr (X, Y)"
    and cas: "getattr g ''chunk_as_sum'' = Inr cas"
    and upd: "op_update_globals (spec_ops M co) (if truthy cas then None else Some i)
                (chunk_feed X Y) s = Inr s1"
    and sil: "getattr g ''silent'' = Inr sil"
    and m: "getattr g ''number_of_chunk_max'' = Inr m"
    and stop: "chunk_max_reached i m = Inr stop"
    by (auto simp: Let_def split: sum.splits prod.splits)
  note s1 = spec_update_posterior[OF upd]
  show ?case
  proof (cases stop)
    case True
    with Cons.prems dec cas upd sil m stop have "s' = s1"
      by (simp add: Let_def)
    with s1 show ?thesis by simp
  next
    case False
    with Cons.prems dec cas upd sil m stop obtain outA where
      "stream_chunks ev (spec_ops M co) g timeline profiler ncols (Suc i) rest (s1, outA)
         = Inr (s', out1)"
      by (simp add: Let_def)
    from Cons.IH[OF this] s1 show ?thesis by simp
  qed
qed

lemma set_globals_from_chunks_posterior:
  assumes "set_globals_from_chunks ev (spec_ops M co) g timeline profiler (s, out) = Inr (s', out1)"
  shows "posterior s' = posterior s \<and> prev_elbo s' = prev_elbo s \<and> printed out1 = printed out"
proof -
  from assms obtain ncols chunks s0 out0 where
    st: "stream_chunks ev (spec_ops M co) g timeline profiler ncols 0 chunks (s0, out0) = Inr (s', out1)"
    and s0: "posterior s0 = posterior s" "prev_elbo s0 = prev_elbo s"
    and out0: "printed out0 = printed out"
    by (auto simp: set_globals_from_chunks_def spec_ops_def spec_init_globals_def printed_append
          split: sum.splits reader.splits if_splits)
  from stream_chunks_posterior[OF st] stream_chunks_printed[OF st] s0 out0
  show ?thesis by simp
qed

lemma epoch_data_posterior:
  assumes "epoch_data ev (spec_ops M co) g a (s, out) = Inr (feed_dict, s1, out1)"
  shows "posterior s1 = posterior s \<and> prev_elbo s1 = prev_elbo s \<and> printed out1 = printed out"
proof (cases "self_file g")
  case None
  with assms have "s1 = s \<and> out1 = out"
    by (auto simp: epoch_data_def split: option.splits if_splits)
  then show ?thesis by simp
next
  case (Some path)
  with assms have
    "set_globals_from_chunks ev (spec_ops M co) g (ra_timeline_path a \<noteq> None)
       (ra_profiler_dir a \<noteq> None) (s, out) = Inr (s1, out1)"
    by (auto simp: epoch_data_def split: sum.splits)
  from set_globals_from_chunks_posterior[OF this] show ?thesis .
qed

lemma step_size_controller_result:
  assumes "\<not> co_brutal_iteration co"
  shows "step_size_controller M co stats n s = ((u, e), s') \<Longrightarrow>
    (u = Accepted \<and> (case prev_elbo s of None \<Rightarrow> True | Some b \<Rightarrow> b \<le> e) \<and>
       prev_elbo s' = Some e) \<or>
    (u = Exhausted \<and> posterior s' = posterior s \<and> prev_elbo s' = prev_elbo s)"
proof (induction n arbitrary: s)
  case 0
  obtain c el where p: "propose M stats (posterior s) (speed s) = (c, el)"
    by (cases "propose M stats (posterior s) (speed s)")
  show ?case
  proof (cases "accepts M co (prev_elbo s) c el")
    case True
    with 0 p have "u = Accepted" "e = el" "prev_elbo s' = Some e" by auto
    moreover from True assms have "case prev_elbo s of None \<Rightarrow> True | Some b \<Rightarrow> b \<le> el"
      by (auto simp: accepts_def split: option.splits if_splits)
    ultimately show ?thesis by (auto split: option.splits)
  next
    case False
    with 0 p show ?thesis by auto
  qed
next
  case (Suc n)
  obtain c el where p: "propose M stats (posterior s) (speed s) = (c, el)"
    by (cases "propose M stats (posterior s) (speed s)")
  show ?case
  proof (cases "accepts M co (prev_elbo s) c el")
    case True
    with Suc.prems p have "u = Accepted" "e = el" "prev_elbo s' = Some e" by auto
    moreover from True assms have "case prev_elbo s of None \<Rightarrow> True | Some b \<Rightarrow> b \<le> el"
      by (auto simp: accepts_def split: option.splits if_splits)
    ultimately show ?thesis by (auto split: option.splits)
  next
    case False
    with Suc.prems p have
      "step_size_controller M co stats n (s\<lparr>speed := speed s * co_step_size_decrease_coef co\<rparr>)
         = ((u, e), s')"
      by simp
    from Suc.IH[OF this] show ?thesis by simp
  qed
qed

lemma run_epoch_step:
  assumes "run_epoch ev (spec_ops M co) g a epoch st = Inr st1"
  shows "\<exists>stats s1 u e.
     posterior s1 = posterior (rs_sess st) \<and> prev_elbo s1 = prev_elbo (rs_sess st) \<and>
     step_size_controller M co stats (co_max_retries co) s1 = ((u, e), rs_sess st1) \<and>
     printed (rs_out st1) = printed (rs_out st) @ [(u, e)] \<and>
     rs_status st1 = rs_status st @ [u]"
proof -
  from assms obtain fd s1 out1 where
    ed: "epoch_data ev (spec_ops M co) g a (rs_sess st, rs_out st) = Inr (fd, s1, out1)"
    by (auto simp: run_epoch_def Let_def split: sum.splits prod.splits)
  from assms ed obtain u e s2 where
    it: "op_iteration (spec_ops M co) fd s1 = Inr ((u, e), s2)"
    by (auto simp: run_epoch_def Let_def split: sum.splits prod.splits)
  have mc: "op_mu_cov (spec_ops M co) s2 = Inr (mean_cov M (posterior s2))"
    by (simp add: spec_ops_def)
  from it have ctrl:
    "step_size_controller M co (iteration_stats M co fd s1) (co_max_retries co) s1 = ((u, e), s2)"
    by (simp add: spec_ops_def spec_iteration_def)
  from assms ed it mc have
    sess: "rs_sess st1 = s2"
    and status: "rs_status st1 = rs_status st @ [u]"
    and out: "printed (rs_out st1) = printed out1 @ [(u, e)]"
    by (auto simp: run_epoch_def Let_def printed_append split: prod.splits if_splits)
  from epoch_data_posterior[OF ed] ctrl sess status out
  show ?thesis by auto
qed

lemma run_epoch_ok:
  assumes "\<not> co_brutal_iteration co"
    and "run_epoch ev (spec_ops M co) g a epoch st = Inr st1"
  shows "\<exists>u e.
     printed (rs_out st1) = printed (rs_out st) @ [(u, e)] \<and>
     rs_status st1 = rs_status st @ [u] \<and>
     ((u = Accepted \<and> (case prev_elbo (rs_sess st) of None \<Rightarrow> True | Some b \<Rightarrow> b \<le> e) \<and>
         prev_elbo (rs_sess st1) = Some e) \<or>
      (u = Exhausted \<and> posterior (rs_sess st1) = posterior (rs_sess st) \<and>
         prev_elbo (rs_sess st1) = prev_elbo (rs_sess st)))"
proof -
  from run_epoch_step[OF assms(2)] obtain stats s1 u e where
    s1: "posterior s1 = posterior (rs_sess st)" "prev_elbo s1 = prev_elbo (rs_sess st)"
    and ctrl: "step_size_controller M co stats (co_max_retries co) s1 = ((u, e), rs_sess st1)"
    and tr: "printed (rs_out st1) = printed (rs_out st) @ [(u, e)]"
    and status: "rs_status st1 = rs_status st @ [u]"
    by blast
  from step_size_controller_result[OF assms(1) ctrl] s1 tr status show ?thesis
    by auto
qed

lemma run_epochs_states:
  "run_epochs ev ops g a epoch n st = Inr stN \<Longrightarrow>
   \<exists>sts. epoch_states ev ops g a epoch n st = Inr sts \<and> length sts = n \<and>
         last (st # sts) = stN"
proof (induction n arbitrary: epoch st)
  case 0
  then show ?case by simp
next
  case (Suc n)
  from Suc.prems obtain st1 where
    st1: "run_epoch ev ops g a epoch st = Inr st1"
    and rest: "run_epochs ev ops g a (Suc epoch) n st1 = Inr stN"
    by (auto split: sum.splits)
  from Suc.IH[OF rest] obtain sts where
    sts: "epoch_states ev ops g a (Suc epoch) n st1 = Inr sts" "length sts = n"
      "last (st1 # sts) = stN"
    by blast
  from st1 sts have "epoch_states ev ops g a epoch (Suc n) st = Inr (st1 # sts)"
    by simp
  with sts show ?case by simp
qed

lemma epoch_states_trace:
  assumes "\<not> co_brutal_iteration co"
  shows "epoch_states ev (spec_ops M co) g a epoch n st = Inr sts \<Longrightarrow>
    \<exists>tr. length tr = n \<and>
         printed (rs_out (last (st # sts))) = printed (rs_out st) @ tr \<and>
         rs_status (last (st # sts)) = rs_status st @ map fst tr \<and>
         trace_ok (prev_elbo (rs_sess st)) (posterior (rs_sess st))
           (zip tr (map (\<lambda>x. posterior (rs_sess x)) sts))"
proof (induction n arbitrary: epoch st sts)
  case 0
  then show ?case by simp
next
  case (Suc n)
  from Suc.prems obtain st1 rest where
    st1: "run_epoch ev (spec_ops M co) g a epoch st = Inr st1"
    and rest: "epoch_states ev (spec_ops M co) g a (Suc epoch) n st1 = Inr rest"
    and sts: "sts = st1 # rest"
    by (auto split: sum.splits)
  from run_epoch_ok[OF assms st1] obtain u e where
    tr1: "printed (rs_out st1) = printed (rs_out st) @ [(u, e)]"
    and status1: "rs_status st1 = rs_status st @ [u]"
    and ok: "(u = Accepted \<and>
               (case prev_elbo (rs_sess st) of None \<Rightarrow> True | Some b \<Rightarrow> b \<le> e) \<and>
               prev_elbo (rs_sess st1) = Some e) \<or>
             (u = Exhausted \<and> posterior (rs_sess st1) = posterior (rs_sess st) \<and>
               prev_elbo (rs_sess st1) = prev_elbo (rs_sess st))"
    by blast
  from Suc.IH[OF rest] obtain tr where
    len: "length tr = n"
    and trN: "printed (rs_out (last (st1 # rest))) = printed (rs_out st1) @ tr"
    and statusN: "rs_status (last (st1 # rest)) = rs_status st1 @ map fst tr"
    and okN: "trace_ok (prev_elbo (rs_sess st1)) (posterior (rs_sess st1))
                (zip tr (map (\<lambda>x. posterior (rs_sess x)) rest))"
    by blast
  have last: "last (st # sts) = last (st1 # rest)" by (simp add: sts)
  have "trace_ok (prev_elbo (rs_sess st)) (posterior (rs_sess st))
          (zip ((u, e) # tr) (map (\<lambda>x. posterior (rs_sess x)) sts))"
    using ok okN by (auto simp: sts)
  moreover have "printed (rs_out (last (st # sts))) = printed (rs_out st) @ (u, e) # tr"
    unfolding last trN tr1 by simp
  moreover have "rs_status (last (st # sts)) = rs_status st @ map fst ((u, e) # tr)"
    unfolding last statusN status1 by simp
  moreover have "length ((u, e) # tr) = Suc n" by (simp add: len)
  ultimately show ?case by blast
qed

text \<open>
  C3: in every completed run with \<^verbatim>\<open>brutal_iteration\<close> false, under the operations modelled
  from the specification, the loop goes through one state for each iteration, one status
  and ELBO is printed for each, the status is the one returned, and each iteration either
  is Accepted with an ELBO at least that of the previous accepted iteration (if there is
  one), or is Exhausted and leaves the posterior of the session as it was.
\<close>

theorem elbo_monotone_or_exhausted:
  assumes "\<not> co_brutal_iteration co"
    and "run ev (spec_ops M co) g a = Inr (res, out)"
  shows "\<exists>sts.
     epoch_states ev (spec_ops M co) g a 0 (nat (ra_n_iter a)) (run_start (spec_init M co))
       = Inr sts \<and>
     length sts = nat (ra_n_iter a) \<and>
     length (printed out) = nat (ra_n_iter a) \<and>
     map fst (printed out) = r_status res \<and>
     trace_ok None (posterior_0 M)
       (zip (printed out) (map (\<lambda>st. posterior (rs_sess st)) sts))"
proof -
  let ?st0 = "run_start (spec_init M co) :: (('a, 'b) session, step_status) run_state"
  have init: "op_init (spec_ops M co) (sess_new (spec_ops M co)) = Inr (spec_init M co)"
    by (simp add: spec_ops_def)
  from assms(2) init obtain stN where
    eps: "run_epochs ev (spec_ops M co) g a 0 (nat (ra_n_iter a)) ?st0 = Inr stN"
    and status: "r_status res = rs_status stN"
    and out: "printed out = printed (rs_out stN)"
    by (auto simp: run_def run_start_def printed_append
          split: if_splits sum.splits option.splits prod.splits)
  from run_epochs_states[OF eps] obtain sts where
    sts: "epoch_states ev (spec_ops M co) g a 0 (nat (ra_n_iter a)) ?st0 = Inr sts"
    and len: "length sts = nat (ra_n_iter a)"
    and last: "last (?st0 # sts) = stN"
    by blast
  from epoch_states_trace[OF assms(1) sts] last obtain tr where
    ltr: "length tr = nat (ra_n_iter a)"
    and tr: "printed (rs_out stN) = printed (rs_out ?st0) @ tr"
    and st: "rs_status stN = rs_status ?st0 @ map fst tr"
    and ok: "trace_ok (prev_elbo (rs_sess ?st0)) (posterior (rs_sess ?st0))
               (zip tr (map (\<lambda>x. posterior (rs_sess x)) sts))"
    by auto
  have start: "printed (rs_out ?st0) = []" "rs_status ?st0 = []"
    "prev_elbo (rs_sess ?st0) = None" "posterior (rs_sess ?st0) = posterior_0 M"
    by (simp_all add: run_start_def spec_init_def)
  from sts len ltr tr st ok start out status show ?thesis
    by auto
qed

lemma example_spec_init:
  "spec_init example_model example_options =
     \<lparr>posterior = 0, speed = 1, prev_elbo = None, global_stats = 0, chunk_stats = [0, 0, 0]\<rparr>"
  by (simp add: spec_init_def example_model_def example_options_def numeral_3_eq_3)

lemma example_epoch_states:
  "map_sum id (map (\<lambda>st. posterior (rs_sess st)))
     (epoch_states example_env (spec_ops example_model example_options)
        (calls example_env Graph_init example_calls) example_run_args 0 3
        (run_start (spec_init example_model example_options)))
   = Inr [2, 4, 4]"
  using example_graph
  by (simp add: run_start_def run_epoch_def epoch_data_def example_run_args_def example_pass
        example_iteration example_mu_cov example_spec_init numeral_3_eq_3 example_clock)

theorem elbo_monotone_or_exhausted_witness:
  "\<not> co_brutal_iteration example_options \<and>
   map_sum id (\<lambda>(res, out). (r_status res, printed out))
     (run example_env (spec_ops example_model example_options)
        (calls example_env Graph_init example_calls) example_run_args)
     = Inr ([Accepted, Accepted, Exhausted],
            [(Accepted, - 1), (Accepted, - 1), (Exhausted, - 3)]) \<and>
   trace_ok None (0 :: real)
     (zip [(Accepted, - 1), (Accepted, - 1), (Exhausted, - 3)] [2, 4, 4])"
proof -
  have h1: "\<not> co_brutal_iteration example_options" by (simp add: example_options_def)
  have n: "nat (ra_n_iter example_run_args) = 3" by (simp add: example_run_args_def)
  have p0: "posterior_0 example_model = 0" by (simp add: example_model_def)
  from elbo_monotone_or_exhausted[OF h1 example_run] obtain sts where
    sts: "epoch_states example_env (spec_ops example_model example_options)
            (calls example_env Graph_init example_calls) example_run_args 0 3
            (run_start (spec_init example_model example_options)) = Inr sts"
    and ok: "trace_ok None (0 :: real)
               (zip [(Accepted, - 1), (Accepted, - 1), (Exhausted, - 3)]
                    (map (\<lambda>st. posterior (rs_sess st)) sts))"
    by (auto simp: n p0)
  from sts example_epoch_states have "map (\<lambda>st. posterior (rs_sess st)) sts = [2, 4, 4]"
    by simp
  with ok h1 show ?thesis by (simp add: example_run)
qed

section \<open>The options of every reachable object\<close>

text \<open>
  Every object reached from a new one by calls of the set-up methods has all its listed
  options as attributes, whether the calls return or raise: the condition under which the
  properties of \<^verbatim>\<open>set_options\<close> are stated holds of all of them.
\<close>

lemma options_present_cong:
  "self_opts g' = self_opts g \<Longrightarrow> self_option_list g' = self_option_list g \<Longrightarrow>
   options_present g' = options_present g"
  by (simp add: options_present_def)

lemma feed_with_arrays_opts:
  "self_opts (snd (feed_with_arrays ev g a)) = self_opts g \<and>
   self_option_list (snd (feed_with_arrays ev g a)) = self_option_list g"
  by (simp add: feed_with_arrays_def Let_def split: option.splits)

lemma feed_with_sizes_opts:
  "self_opts (snd (feed_with_sizes g a)) = self_opts g \<and>
   self_option_list (snd (feed_with_sizes g a)) = self_option_list g"
  by (simp add: feed_with_sizes_def split: option.splits)

lemma feed_with_file_opts:
  "self_opts (snd (feed_with_file ev g path a)) = self_opts g \<and>
   self_option_list (snd (feed_with_file ev g path a)) = self_option_list g"
  by (simp add: feed_with_file_def Let_def split: option.splits list.splits pyval.splits)

lemma feed_with_prior_opts:
  "self_opts (snd (feed_with_prior g ps)) = self_opts g \<and>
   self_option_list (snd (feed_with_prior g ps)) = self_option_list g"
  by (simp add: feed_with_prior_def Let_def
        split: option.splits arg.splits pyval.splits sum.splits prod.splits)

lemma feed_with_opts:
  "self_opts (snd (feed_with ev g a)) = self_opts g \<and>
   self_option_list (snd (feed_with ev g a)) = self_option_list g"
proof -
  define fed where "fed =
        (if fw_X a \<noteq> None \<or> fw_Y a \<noteq> None then feed_with_arrays ev g a
         else case fw_file a of
                None \<Rightarrow> feed_with_sizes g a
              | Some path \<Rightarrow> feed_with_file ev g path a)"
  have fed: "self_opts (snd fed) = self_opts g \<and> self_option_list (snd fed) = self_option_list g"
    unfolding fed_def
    using feed_with_arrays_opts[of ev g a] feed_with_sizes_opts[of g a]
      feed_with_file_opts[of ev g _ a]
    by (simp split: option.splits)
  have fw: "feed_with ev g a =
      (case fed of (Inl e, g1) \<Rightarrow> (Inl e, g1)
                 | (Inr u, g1) \<Rightarrow> feed_with_prior g1 (fw_prior_std a))"
    by (simp add: feed_with_def fed_def Let_def)
  show ?thesis
  proof (cases fed)
    case (Pair r g1)
    with fed have g1: "self_opts g1 = self_opts g" "self_option_list g1 = self_option_list g"
      by simp_all
    show ?thesis
      using Pair g1 feed_with_prior_opts[of g1 "fw_prior_std a"]
      by (cases r) (simp_all add: fw)
  qed
qed

lemma set_model_opts:
  "self_opts (snd (set_model ev g a)) = self_opts g \<and>
   self_option_list (snd (set_model ev g a)) = self_option_list g"
  by (simp add: set_model_def split: option.splits sum.splits prod.splits)

lemma init_with_opts:
  "self_opts (snd (init_with g mu_0 cov_0)) = self_opts g \<and>
   self_option_list (snd (init_with g mu_0 cov_0)) = self_option_list g"
  by (simp add: init_with_def init_with_mu_def init_with_cov_def
        split: option.splits arg.splits sum.splits prod.splits)

lemma build_opts:
  "self_opts (snd (build ev g)) = self_opts g \<and>
   self_option_list (snd (build ev g)) = self_option_list g"
  by (simp add: build_def split: sum.splits prod.splits)

lemma set_options_loop_present:
  "options_present g \<Longrightarrow> options_present (fst (set_options_loop g ws kw))"
proof (induction g ws kw rule: set_options_loop.induct)
  case (1 g ws)
  then show ?case by simp
next
  case (2 g ws key v kw)
  show ?case
  proof (cases "key \<in> set (self_option_list g)")
    case True
    from 2(3) have "options_present (g\<lparr>self_opts := (self_opts g)(key \<mapsto> v)\<rparr>)"
      by (auto simp: options_present_def list_all_iff)
    with 2(2) True show ?thesis by simp
  next
    case False
    with 2(1,3) show ?thesis by simp
  qed
qed

lemma set_options_present:
  assumes "options_present g"
  shows "options_present (snd (snd (set_options g kw)))"
proof -
  let ?g1 = "fst (set_options_loop g [] kw)"
  from set_options_loop_present[OF assms] have p1: "options_present ?g1" .
  then have "options_present
      (?g1\<lparr>self_opts := (self_opts ?g1)(''compute_prior_kernel'' \<mapsto> PBool False)\<rparr>)"
    by (auto simp: options_present_def list_all_iff)
  with p1 show ?thesis
    by (simp add: set_options_split Let_def split: option.splits)
qed

lemma options_present_calls:
  "options_present g \<Longrightarrow> options_present (calls ev g cs)"
proof (induction cs arbitrary: g)
  case Nil
  then show ?case by simp
next
  case (Cons c cs)
  have "options_present (do_call ev g c)"
  proof (cases c)
    case (Feed_with a)
    with Cons.prems options_present_cong[of "snd (feed_with ev g a)" g] feed_with_opts[of ev g a]
    show ?thesis by simp
  next
    case (Set_model a)
    with Cons.prems options_present_cong[of "snd (set_model ev g a)" g] set_model_opts[of ev g a]
    show ?thesis by simp
  next
    case (Init_with mu_0 cov_0)
    with Cons.prems options_present_cong[of "snd (init_with g mu_0 cov_0)" g]
      init_with_opts[of g mu_0 cov_0]
    show ?thesis by simp
  next
    case (Set_options kw)
    with Cons.prems set_options_present[of g kw] show ?thesis by simp
  next
    case Build
    with Cons.prems options_present_cong[of "snd (build ev g)" g] build_opts[of ev g]
    show ?thesis by simp
  qed
  from Cons.IH[OF this] show ?case by simp
qed

lemma options_present_reachable: "options_present (calls ev Graph_init cs)"
  by (rule options_present_calls[OF options_present_init])

end
